theory Spec2Isabelle
  imports Main
begin

section \<open>JavaScript values used by the program\<close>

text \<open>
  A JavaScript string is a sequence of UTF-16 code units. The model keeps the code units as
  natural numbers; \<open>str\<close> turns an Isabelle literal into that form. Numbers are modelled as
  exact naturals and integers, which is what the double arithmetic of the source computes
  as long as every value stays below \<open>2 ^ 53\<close>.
\<close>

type_synonym jsstring = "nat list"

definition str :: "string \<Rightarrow> jsstring" where
  "str s = map of_char s"

datatype error = TypeError | SyntaxError | URIError | TransportError

text \<open>\<open>s[i]\<close>: the one-unit string at index \<open>i\<close>, or \<open>undefined\<close> out of range.\<close>

definition charAt :: "jsstring \<Rightarrow> nat \<Rightarrow> nat option" where
  "charAt s i = (if i < length s then Some (s ! i) else None)"

text \<open>String concatenation with a value that may be \<open>undefined\<close>: it prints as the text
  \<open>undefined\<close>.\<close>

definition toStr :: "nat option \<Rightarrow> jsstring" where
  "toStr v = (case v of None \<Rightarrow> str ''undefined'' | Some c \<Rightarrow> [c])"

text \<open>\<open>Array.prototype.indexOf\<close>: the first index of the element, \<open>None\<close> for \<open>-1\<close>.\<close>

fun indexOf :: "'a list \<Rightarrow> 'a \<Rightarrow> nat option" where
  "indexOf [] c = None"
| "indexOf (x # xs) c = (if x = c then Some 0 else map_option Suc (indexOf xs c))"

section \<open>The base converter: \<open>decodeNumber\<close> (src/utils.ts, lines 80 to 98)\<close>

definition charset :: jsstring where
  "charset = str ''0123456789abcdefghijklmnopqrstuvwxyzABCDEFGHIJKLMNOPQRSTUVWXYZ+/''"

text \<open>
  The \<open>reduce\<close> over the reversed digits: \<open>index\<close> is the position from the least
  significant end, \<open>sm\<close> the accumulator (the source's \<open>sum\<close>). A symbol outside
  \<open>fromCharset\<close> adds nothing. The sum is an exact natural number. The source sums
  doubles, and the two agree as long as the value stays below \<open>2 ^ 53\<close> and no power
  \<open>fromBase ^ index\<close> overflows; beyond that (a value of \<open>2 ^ 53\<close> or more, or a digit
  string with so many leading zeros that the power is infinite) the source rounds or
  yields \<open>NaN\<close>, which this model does not follow.
\<close>

fun reduceDigits :: "jsstring \<Rightarrow> nat \<Rightarrow> jsstring \<Rightarrow> nat \<Rightarrow> nat \<Rightarrow> nat" where
  "reduceDigits fromCharset fromBase [] index sm = sm"
| "reduceDigits fromCharset fromBase (char # rest) index sm =
     reduceDigits fromCharset fromBase rest (Suc index)
       (case indexOf fromCharset char of
          Some d \<Rightarrow> sm + d * fromBase ^ index
        | None \<Rightarrow> sm)"

definition toBase10 :: "jsstring \<Rightarrow> nat \<Rightarrow> nat" where
  "toBase10 value fromBase = reduceDigits (take fromBase charset) fromBase (rev value) 0 0"

text \<open>
  The \<open>while (decimal > 0)\<close> loop. With \<open>toBase = 0\<close> the remainder is \<open>NaN\<close>: the
  symbol read is \<open>undefined\<close>, \<open>decimal\<close> becomes \<open>NaN\<close> and the loop stops. With
  \<open>toBase = 1\<close> the loop never ends, which the model keeps as \<open>None\<close>.
\<close>

partial_function (option) encodeLoop :: "nat \<Rightarrow> nat \<Rightarrow> jsstring \<Rightarrow> jsstring option" where
  "encodeLoop decimal toBase result =
     (if decimal > 0 then
        (if toBase = 0 then Some (str ''undefined'' @ result)
         else encodeLoop ((decimal - decimal mod toBase) div toBase) toBase
                (toStr (charAt (take toBase charset) (decimal mod toBase)) @ result))
      else Some result)"

declare encodeLoop.simps [code]

definition toBaseB :: "nat \<Rightarrow> nat \<Rightarrow> jsstring option" where
  "toBaseB decimal toBase =
     map_option (\<lambda>result. if result = [] then str ''0'' else result)
       (encodeLoop decimal toBase [])"

definition decodeNumber :: "jsstring \<Rightarrow> nat \<Rightarrow> nat \<Rightarrow> jsstring option" where
  "decodeNumber value fromBase toBase = toBaseB (toBase10 value fromBase) toBase"

section \<open>The payload decoder: \<open>SnapSaveDecoder.decodeSnapApp\<close> (src/utils.ts, lines 74 to 125)\<close>

text \<open>
  The source takes its five arguments as strings and lets the language coerce
  \<open>subtractValue\<close> and \<open>base\<close> to numbers where it needs them. The model takes the two
  numbers themselves: \<open>base\<close> is a natural number and \<open>subtractValue\<close> an integer. The
  second argument of the source (\<open>u\<close>) is never read and is left out.
\<close>

text \<open>\<open>j.toString()\<close> for a non-negative integer: its decimal digits.\<close>

function natToString :: "nat \<Rightarrow> jsstring" where
  "natToString n = (if n < 10 then [48 + n] else natToString (n div 10) @ [48 + n mod 10])"
  by pat_completeness auto
termination
  by (relation "measure id") auto

declare natToString.simps [simp del]

text \<open>
  The numeric value of a string of decimal digits, which is the only form that
  \<open>decodeNumber\<close> returns for \<open>toBase = 10\<close>.
\<close>

definition numberOfDigits :: "jsstring \<Rightarrow> nat" where
  "numberOfDigits s = foldl (\<lambda>a c. 10 * a + (c - 48)) 0 s"

text \<open>\<open>String.fromCharCode(x)\<close>: the code unit \<open>x\<close> modulo \<open>2 ^ 16\<close>.\<close>

definition fromCharCode :: "int \<Rightarrow> nat" where
  "fromCharCode x = nat (x mod 65536)"

definition lineTerminator :: "nat \<Rightarrow> bool" where
  "lineTerminator c = (c = 10 \<or> c = 13 \<or> c = 8232 \<or> c = 8233)"

text \<open>
  \<open>segment.replace(new RegExp(c, "g"), rep)\<close> for a pattern of one code unit \<open>c\<close>. The
  pattern is read as a regular expression: \<open>*\<close>, \<open>+\<close>, \<open>?\<close>, \<open>(\<close>, \<open>)\<close>, \<open>[\<close> and a
  backslash alone are not patterns and the constructor throws; a dot matches every unit
  but a line terminator; \<open>^\<close> and \<open>$\<close> match the empty string at the start and at the
  end, \<open>|\<close> matches it at every position; every other unit matches itself.
\<close>

definition replaceSymbol :: "nat \<Rightarrow> jsstring \<Rightarrow> jsstring \<Rightarrow> error + jsstring" where
  "replaceSymbol c rep segment =
     (if c \<in> set (str ''*+?()['') \<or> c = 92 then Inl SyntaxError
      else if c = of_char CHR ''.'' then
        Inr (concat (map (\<lambda>x. if lineTerminator x then [x] else rep) segment))
      else if c = of_char CHR ''^'' then Inr (rep @ segment)
      else if c = of_char CHR ''$'' then Inr (segment @ rep)
      else if c = of_char CHR ''|'' then Inr (rep @ concat (map (\<lambda>x. x # rep) segment))
      else Inr (concat (map (\<lambda>x. if x = c then rep else [x]) segment)))"

text \<open>The loop \<open>for (let j = 0; j < charMap.length; j++)\<close> of digit substitutions.\<close>

function substituteFrom :: "jsstring \<Rightarrow> nat \<Rightarrow> jsstring \<Rightarrow> error + jsstring" where
  "substituteFrom charMap j segment =
     (if j < length charMap then
        (case replaceSymbol (charMap ! j) (natToString j) segment of
           Inl e \<Rightarrow> Inl e
         | Inr segment' \<Rightarrow> substituteFrom charMap (Suc j) segment')
      else Inr segment)"
  by pat_completeness auto
termination
  by (relation "measure (\<lambda>(charMap, j, segment). length charMap - j)") auto

declare substituteFrom.simps [simp del]

text \<open>
  The inner loop \<open>while (encodedContent[i] !== charMap[Number(base)])\<close>. Nothing in it
  compares \<open>i\<close> with the length: past the end the unit read is \<open>undefined\<close>, which is
  appended as the text \<open>undefined\<close>. The loop returns the index it stopped at and the
  segment; \<open>None\<close> is the loop that never stops.
\<close>

partial_function (option) scanSegment ::
  "jsstring \<Rightarrow> nat option \<Rightarrow> nat \<Rightarrow> jsstring \<Rightarrow> (nat \<times> jsstring) option" where
  "scanSegment encodedContent delimiter i segment =
     (if charAt encodedContent i \<noteq> delimiter
      then scanSegment encodedContent delimiter (Suc i)
             (segment @ toStr (charAt encodedContent i))
      else Some (i, segment))"

declare scanSegment.simps [code]

subsection \<open>\<open>fixEncoding\<close>: the bytes of the string, decoded as UTF-8\<close>

text \<open>
  \<open>new TextDecoder("utf-8").decode(bytes)\<close> runs the UTF-8 decoder of the Encoding
  standard. Its state is the code point under construction, the number of continuation
  bytes seen and needed, and the bounds of the next continuation byte. On a malformed
  sequence the decoder raises an error: with the \<open>fatal\<close> option the call throws a
  \<open>TypeError\<close>, without it the decoder emits U+FFFD (65533) and goes on. A byte that
  is not the continuation expected is read again as the start of a sequence.
\<close>

definition consR :: "'a \<Rightarrow> error + 'a list \<Rightarrow> error + 'a list" where
  "consR x r = (case r of Inl e \<Rightarrow> Inl e | Inr xs \<Rightarrow> Inr (x # xs))"

definition decodeError :: "bool \<Rightarrow> error + nat list \<Rightarrow> error + nat list" where
  "decodeError fatal r = (if fatal then Inl TypeError else consR 65533 r)"

function utf8Run ::
  "bool \<Rightarrow> nat list \<Rightarrow> nat \<Rightarrow> nat \<Rightarrow> nat \<Rightarrow> nat \<Rightarrow> nat \<Rightarrow> error + nat list" where
  "utf8Run fatal [] codePoint bytesSeen bytesNeeded lower upper =
     (if bytesNeeded \<noteq> 0 then decodeError fatal (Inr []) else Inr [])"
| "utf8Run fatal (b # bs) codePoint bytesSeen bytesNeeded lower upper =
     (if bytesNeeded = 0 then
        (if b \<le> 127 then consR b (utf8Run fatal bs 0 0 0 128 191)
         else if 194 \<le> b \<and> b \<le> 223 then utf8Run fatal bs (b - 192) 0 1 128 191
         else if 224 \<le> b \<and> b \<le> 239 then
           utf8Run fatal bs (b - 224) 0 2
             (if b = 224 then 160 else 128) (if b = 237 then 159 else 191)
         else if 240 \<le> b \<and> b \<le> 244 then
           utf8Run fatal bs (b - 240) 0 3
             (if b = 240 then 144 else 128) (if b = 244 then 143 else 191)
         else decodeError fatal (utf8Run fatal bs 0 0 0 128 191))
      else if b < lower \<or> upper < b then
        decodeError fatal (utf8Run fatal (b # bs) 0 0 0 128 191)
      else if Suc bytesSeen \<noteq> bytesNeeded then
        utf8Run fatal bs (codePoint * 64 + (b - 128)) (Suc bytesSeen) bytesNeeded 128 191
      else consR (codePoint * 64 + (b - 128)) (utf8Run fatal bs 0 0 0 128 191))"
  by pat_completeness auto
termination
  by (relation "measure (\<lambda>(fatal, bs, codePoint, bytesSeen, bytesNeeded, lower, upper).
        2 * length bs + (if bytesNeeded = 0 then 0 else 1))") auto

text \<open>A code point as UTF-16 code units.\<close>

definition utf16Encode :: "nat \<Rightarrow> jsstring" where
  "utf16Encode cp =
     (if cp < 65536 then [cp]
      else [55296 + (cp - 65536) div 1024, 56320 + (cp - 65536) mod 1024])"

text \<open>The decoder drops a byte order mark (U+FEFF, 65279) that comes first.\<close>

definition dropBOM :: "nat list \<Rightarrow> nat list" where
  "dropBOM cps = (case cps of [] \<Rightarrow> [] | cp # rest \<Rightarrow> if cp = 65279 then rest else cps)"

definition textDecoderDecode :: "bool \<Rightarrow> nat list \<Rightarrow> error + jsstring" where
  "textDecoderDecode fatal bytes =
     (case utf8Run fatal bytes 0 0 0 128 191 of
        Inl e \<Rightarrow> Inl e
      | Inr cps \<Rightarrow> Inr (concat (map utf16Encode (dropBOM cps))))"

text \<open>
  A byte sequence is valid UTF-8 when the decoder raises no error on it, that is when the
  decoder in its \<open>fatal\<close> mode returns.
\<close>

definition validUtf8 :: "nat list \<Rightarrow> bool" where
  "validUtf8 bytes =
     (case utf8Run True bytes 0 0 0 128 191 of Inl e \<Rightarrow> False | Inr cps \<Rightarrow> True)"

text \<open>\<open>new Uint8Array(...)\<close> keeps each code unit modulo 256.\<close>

definition fixEncoding :: "jsstring \<Rightarrow> error + jsstring" where
  "fixEncoding s = textDecoderDecode False (map (\<lambda>c. c mod 256) s)"

subsection \<open>The outer loop and \<open>decodeSnapApp\<close>\<close>

partial_function (option) decodeLoop ::
  "jsstring \<Rightarrow> jsstring \<Rightarrow> int \<Rightarrow> nat \<Rightarrow> nat \<Rightarrow> jsstring \<Rightarrow> (error + jsstring) option" where
  "decodeLoop encodedContent charMap subtractValue base i decodedResult =
     (if i < length encodedContent then
        (case scanSegment encodedContent (charAt charMap base) i [] of
           None \<Rightarrow> None
         | Some (i', segment) \<Rightarrow>
             (case substituteFrom charMap 0 segment of
                Inl e \<Rightarrow> Some (Inl e)
              | Inr segment' \<Rightarrow>
                  (case decodeNumber segment' base 10 of
                     None \<Rightarrow> None
                   | Some digits \<Rightarrow>
                       decodeLoop encodedContent charMap subtractValue base (Suc i')
                         (decodedResult @
                            [fromCharCode (int (numberOfDigits digits) - subtractValue)]))))
      else Some (Inr decodedResult))"

declare decodeLoop.simps [code]

definition decodeSnapApp ::
  "jsstring \<Rightarrow> jsstring \<Rightarrow> int \<Rightarrow> nat \<Rightarrow> (error + jsstring) option" where
  "decodeSnapApp encodedContent charMap subtractValue base =
     (case decodeLoop encodedContent charMap subtractValue base 0 [] of
        None \<Rightarrow> None
      | Some (Inl e) \<Rightarrow> Some (Inl e)
      | Some (Inr decodedResult) \<Rightarrow> Some (fixEncoding decodedResult))"

section \<open>String operations of the language used by the extractor\<close>

text \<open>A value of type \<open>string | undefined\<close> put into a string concatenation.\<close>

definition strOrUndefined :: "jsstring option \<Rightarrow> jsstring" where
  "strOrUndefined v = (case v of None \<Rightarrow> str ''undefined'' | Some s \<Rightarrow> s)"

text \<open>\<open>a || b\<close> on such values: \<open>undefined\<close> and the empty string are both falsy.\<close>

definition truthy :: "jsstring option \<Rightarrow> bool" where
  "truthy v = (case v of None \<Rightarrow> False | Some s \<Rightarrow> s \<noteq> [])"

definition orElse :: "jsstring option \<Rightarrow> jsstring option \<Rightarrow> jsstring option" where
  "orElse a b = (if truthy a then a else b)"

definition startsWith :: "jsstring \<Rightarrow> jsstring \<Rightarrow> bool" where
  "startsWith p s = (take (length p) s = p)"

text \<open>\<open>s.includes(p)\<close>.\<close>

fun includesStr :: "jsstring \<Rightarrow> jsstring \<Rightarrow> bool" where
  "includesStr [] p = (p = [])"
| "includesStr (c # cs) p = (startsWith p (c # cs) \<or> includesStr cs p)"

text \<open>\<open>s.replace(p, "")\<close> with a string pattern: the first occurrence is removed.\<close>

fun removeFirst :: "jsstring \<Rightarrow> jsstring \<Rightarrow> jsstring" where
  "removeFirst [] p = []"
| "removeFirst (c # cs) p =
     (if startsWith p (c # cs) then drop (length p) (c # cs) else c # removeFirst cs p)"

text \<open>
  White space as \<open>trim()\<close> and the class \<open>\s\<close> of regular expressions know it: the
  white space and line terminator code units.
\<close>

definition whiteSpace :: "nat \<Rightarrow> bool" where
  "whiteSpace c =
     (c \<in> {9, 10, 11, 12, 13, 32, 160, 5760, 8232, 8233, 8239, 8287, 12288, 65279}
      \<or> (8192 \<le> c \<and> c \<le> 8202))"

definition trim :: "jsstring \<Rightarrow> jsstring" where
  "trim s = rev (dropWhile whiteSpace (rev (dropWhile whiteSpace s)))"

subsection \<open>The two regular expressions of \<open>extractTableMedia\<close>\<close>

text \<open>
  \<open>/get_progressApi/ig.test(s)\<close>: some position of \<open>s\<close> holds the word, letters compared
  without regard to case. The pattern has ASCII letters only, so a code unit matches a
  pattern letter exactly when both have the same ASCII upper case form.
\<close>

definition upperAscii :: "nat \<Rightarrow> nat" where
  "upperAscii c = (if 97 \<le> c \<and> c \<le> 122 then c - 32 else c)"

definition startsWithIgnoreCase :: "jsstring \<Rightarrow> jsstring \<Rightarrow> bool" where
  "startsWithIgnoreCase p s = (map upperAscii (take (length p) s) = map upperAscii p)"

fun testIgnoreCase :: "jsstring \<Rightarrow> jsstring \<Rightarrow> bool" where
  "testIgnoreCase p [] = (p = [])"
| "testIgnoreCase p (c # cs) = (startsWithIgnoreCase p (c # cs) \<or> testIgnoreCase p cs)"

definition testProgressApi :: "jsstring \<Rightarrow> bool" where
  "testProgressApi s = testIgnoreCase (str ''get_progressApi'') s"

text \<open>
  \<open>/get_progressApi\('(.*?)'\)/.exec(s)?.[1]\<close>. After the opening \<open>get_progressApi('\<close>
  the lazy group takes the shortest run of units, none of them a line terminator, that is
  followed by \<open>')\<close>. The leftmost position where the whole pattern matches wins; \<open>None\<close>
  is the \<open>undefined\<close> of a failed match.
\<close>

fun lazyCapture :: "jsstring \<Rightarrow> jsstring \<Rightarrow> jsstring option" where
  "lazyCapture captured [] = None"
| "lazyCapture captured (c # cs) =
     (if startsWith [39, 41] (c # cs) then Some captured
      else if lineTerminator c then None
      else lazyCapture (captured @ [c]) cs)"

text \<open>The match that starts at the first unit of \<open>s\<close>; 39 is the quote, 41 the bracket.\<close>

definition matchProgressApiAt :: "jsstring \<Rightarrow> jsstring option" where
  "matchProgressApiAt s =
     (if startsWith (str ''get_progressApi('' @ [39]) s
      then lazyCapture [] (drop (length (str ''get_progressApi('' @ [39])) s)
      else None)"

fun execProgressApi :: "jsstring \<Rightarrow> jsstring option" where
  "execProgressApi [] = None"
| "execProgressApi (c # cs) =
     (case matchProgressApiAt (c # cs) of
        Some captured \<Rightarrow> Some captured
      | None \<Rightarrow> execProgressApi cs)"

subsection \<open>\<open>decodeURIComponent\<close> and \<open>fixThumbnail\<close> (src/utils.ts, lines 28 to 31)\<close>

definition hexDigit :: "nat \<Rightarrow> nat option" where
  "hexDigit c =
     (if 48 \<le> c \<and> c \<le> 57 then Some (c - 48)
      else if 97 \<le> c \<and> c \<le> 102 then Some (c - 87)
      else if 65 \<le> c \<and> c \<le> 70 then Some (c - 55)
      else None)"

text \<open>The two hexadecimal digits that follow a percent sign.\<close>

fun parseHexOctet :: "jsstring \<Rightarrow> nat option" where
  "parseHexOctet (h # l # rest) =
     (case hexDigit h of
        None \<Rightarrow> None
      | Some a \<Rightarrow> (case hexDigit l of None \<Rightarrow> None | Some b \<Rightarrow> Some (16 * a + b)))"
| "parseHexOctet s = None"

text \<open>The number of leading 1 bits of an octet.\<close>

definition leadingOnes :: "nat \<Rightarrow> nat" where
  "leadingOnes B =
     (if B < 128 then 0 else if B < 192 then 1 else if B < 224 then 2
      else if B < 240 then 3 else if B < 248 then 4 else 5)"

text \<open>The \<open>n\<close> further escapes \<open>%XX\<close> of a multi-byte sequence and the text after them.\<close>

fun continuationBytes :: "nat \<Rightarrow> jsstring \<Rightarrow> (nat list \<times> jsstring) option" where
  "continuationBytes 0 s = Some ([], s)"
| "continuationBytes (Suc n) [] = None"
| "continuationBytes (Suc n) (c # cs) =
     (if c \<noteq> 37 then None
      else case parseHexOctet cs of
             None \<Rightarrow> None
           | Some b \<Rightarrow>
               (case continuationBytes n (drop 2 cs) of
                  None \<Rightarrow> None
                | Some (octets, rest) \<Rightarrow> Some (b # octets, rest)))"

lemma continuationBytes_length:
  "continuationBytes n s = Some (octets, rest) \<Longrightarrow> length rest \<le> length s"
proof (induction n s arbitrary: octets rest rule: continuationBytes.induct)
  case (1 s)
  then show ?case by simp
next
  case (2 n)
  then show ?case by simp
next
  case (3 n c cs)
  from 3(2) obtain b octets' where b: "c = 37" "parseHexOctet cs = Some b"
    and r: "continuationBytes n (drop 2 cs) = Some (octets', rest)"
    by (auto split: if_splits option.splits)
  have "length rest \<le> length (drop 2 cs)"
    using 3(1) b r by simp
  then show ?case by simp
qed

definition appendR :: "'a list \<Rightarrow> error + 'a list \<Rightarrow> error + 'a list" where
  "appendR xs r = (case r of Inl e \<Rightarrow> Inl e | Inr ys \<Rightarrow> Inr (xs @ ys))"

text \<open>
  \<open>decodeURIComponent\<close>: a percent sign must be followed by two hexadecimal digits; an
  octet below 128 is that code unit; any other octet must start a well-formed UTF-8
  sequence whose remaining octets are escaped too. Everything else throws \<open>URIError\<close>.
\<close>

function decodeURIComponent :: "jsstring \<Rightarrow> error + jsstring" where
  "decodeURIComponent [] = Inr []"
| "decodeURIComponent (c # cs) =
     (if c \<noteq> 37 then consR c (decodeURIComponent cs)
      else (case parseHexOctet cs of
              None \<Rightarrow> Inl URIError
            | Some B \<Rightarrow>
                (if leadingOnes B = 0 then consR B (decodeURIComponent (drop 2 cs))
                 else if leadingOnes B = 1 \<or> leadingOnes B > 4 then Inl URIError
                 else (case continuationBytes (leadingOnes B - 1) (drop 2 cs) of
                         None \<Rightarrow> Inl URIError
                       | Some (octets, rest) \<Rightarrow>
                           (case utf8Run True (B # octets) 0 0 0 128 191 of
                              Inr [V] \<Rightarrow> appendR (utf16Encode V) (decodeURIComponent rest)
                            | _ \<Rightarrow> Inl URIError)))))"
  by pat_completeness auto
termination
  by (relation "measure length") (auto dest!: continuationBytes_length)

definition fixThumbnail :: "jsstring \<Rightarrow> error + jsstring" where
  "fixThumbnail thumbUrl =
     (let toReplace = str ''https://snapinsta.app/photo.php?photo=''
      in if includesStr thumbUrl toReplace
         then decodeURIComponent (removeFirst thumbUrl toReplace)
         else Inr thumbUrl)"

section \<open>The parsed document and the queries of the extractor\<close>

text \<open>
  \<open>load(decodedHtml)\<close> returns the parsed document. The model is the tree of its nodes:
  elements with a tag name, attributes and children, text nodes and comments. The
  attributes are an association list in which the first entry of a name counts.
\<close>

datatype node =
    Element jsstring "(jsstring \<times> jsstring) list" "node list"
  | Text jsstring
  | Comment jsstring

text \<open>
  A member of a selection is an element together with its place in the document: the
  path of child indices from the root, and the parent node.
\<close>

record element =
  path :: "nat list"
  parent :: "node option"
  tagName :: jsstring
  attribs :: "(jsstring \<times> jsstring) list"
  childNodes :: "node list"

text \<open>The text of a node: the data of the text nodes below it, in document order.\<close>

fun textContent :: "node \<Rightarrow> jsstring" where
  "textContent (Element t a cs) = concat (map textContent cs)"
| "textContent (Text d) = d"
| "textContent (Comment d) = []"

text \<open>The elements among the nodes \<open>ns\<close> and below them, in document order.\<close>

function elementsOf :: "nat list \<Rightarrow> node option \<Rightarrow> nat \<Rightarrow> node list \<Rightarrow> element list" where
  "elementsOf p par i [] = []"
| "elementsOf p par i (Element t a cs # ns) =
     \<lparr>path = p @ [i], parent = par, tagName = t, attribs = a, childNodes = cs\<rparr>
       # elementsOf (p @ [i]) (Some (Element t a cs)) 0 cs
       @ elementsOf p par (Suc i) ns"
| "elementsOf p par i (Text d # ns) = elementsOf p par (Suc i) ns"
| "elementsOf p par i (Comment d # ns) = elementsOf p par (Suc i) ns"
  by pat_completeness auto
termination
  by (relation "measure (\<lambda>(p, par, i, ns). size_list size ns)") auto

subsection \<open>Selectors\<close>

text \<open>
  The selectors of the source are a tag name, a tag name with a class (\<open>div.card\<close>), and
  two of these joined by the child combinator (\<open>tbody > tr\<close>).
\<close>

datatype compound = Tag jsstring | TagClass jsstring jsstring

datatype selector = Simple compound | Child compound compound

text \<open>The words of a \<open>class\<close> attribute, separated by white space.\<close>

fun tokens :: "jsstring \<Rightarrow> jsstring \<Rightarrow> jsstring list" where
  "tokens cur [] = (if cur = [] then [] else [cur])"
| "tokens cur (c # cs) =
     (if whiteSpace c then (if cur = [] then tokens [] cs else cur # tokens [] cs)
      else tokens (cur @ [c]) cs)"

definition hasClass :: "(jsstring \<times> jsstring) list \<Rightarrow> jsstring \<Rightarrow> bool" where
  "hasClass a c =
     (case map_of a (str ''class'') of None \<Rightarrow> False | Some v \<Rightarrow> c \<in> set (tokens [] v))"

fun matchesCompound :: "compound \<Rightarrow> jsstring \<Rightarrow> (jsstring \<times> jsstring) list \<Rightarrow> bool" where
  "matchesCompound (Tag t) name a = (name = t)"
| "matchesCompound (TagClass t c) name a = (name = t \<and> hasClass a c)"

fun matchesNode :: "compound \<Rightarrow> node \<Rightarrow> bool" where
  "matchesNode c (Element t a cs) = matchesCompound c t a"
| "matchesNode c (Text d) = False"
| "matchesNode c (Comment d) = False"

fun matches :: "selector \<Rightarrow> element \<Rightarrow> bool" where
  "matches (Simple c) e = matchesCompound c (tagName e) (attribs e)"
| "matches (Child a b) e =
     (matchesCompound b (tagName e) (attribs e) \<and>
      (case parent e of None \<Rightarrow> False | Some p \<Rightarrow> matchesNode a p))"

text \<open>\<open>$(selector)\<close>: the matching elements of the whole document, in document order.\<close>

definition select :: "node list \<Rightarrow> selector \<Rightarrow> element list" where
  "select doc sel = filter (matches sel) (elementsOf [] None 0 doc)"

text \<open>
  \<open>selection.find(selector)\<close>: the matching elements below the members of the selection,
  each once, in document order. A member that lies below another member adds nothing and
  is dropped first. For a selector with a child combinator the parent may be the member
  itself.
\<close>

definition properPrefix :: "nat list \<Rightarrow> nat list \<Rightarrow> bool" where
  "properPrefix p q = (length p < length q \<and> take (length p) q = p)"

definition removeSubsets :: "element list \<Rightarrow> element list" where
  "removeSubsets es = filter (\<lambda>e. \<not> list_ex (\<lambda>a. properPrefix (path a) (path e)) es) es"

definition descendants :: "element \<Rightarrow> element list" where
  "descendants e =
     elementsOf (path e) (Some (Element (tagName e) (attribs e) (childNodes e))) 0
       (childNodes e)"

definition findIn :: "element list \<Rightarrow> selector \<Rightarrow> element list" where
  "findIn ctxs sel =
     concat (map (\<lambda>ctx. filter (matches sel) (descendants ctx)) (removeSubsets ctxs))"

text \<open>\<open>.eq(i)\<close>, \<open>.attr(name)\<close> (of the first member) and \<open>.text()\<close> (of all members).\<close>

definition eqAt :: "element list \<Rightarrow> nat \<Rightarrow> element list" where
  "eqAt es i = (if i < length es then [es ! i] else [])"

definition attr :: "element list \<Rightarrow> jsstring \<Rightarrow> jsstring option" where
  "attr es name = (case es of [] \<Rightarrow> None | e # rest \<Rightarrow> map_of (attribs e) name)"

definition textOf :: "element list \<Rightarrow> jsstring" where
  "textOf es = concat (map (\<lambda>e. concat (map textContent (childNodes e))) es)"

section \<open>The extractor: \<open>MediaExtractor\<close> (src/utils.ts, lines 159 to 276)\<close>

datatype mediaType = Image | Video

record SnapSaveDownloaderMedia =
  url :: "jsstring option"
  type :: mediaType
  resolution :: "jsstring option"
  thumbnail :: "jsstring option"
  shouldRender :: "bool option"

record SnapSaveDownloaderData =
  description :: "jsstring option"
  preview :: "jsstring option"
  media :: "SnapSaveDownloaderMedia list option"

definition extractMetadata :: "node list \<Rightarrow> SnapSaveDownloaderData" where
  "extractMetadata doc =
     (let description' = trim (textOf (select doc (Simple (TagClass (str ''span'') (str ''video-des'')))));
          preview' = attr (findIn (select doc (Child (TagClass (str ''article'') (str ''media''))
                                                     (Tag (str ''figure''))))
                                  (Simple (Tag (str ''img''))))
                          (str ''src'')
      in \<lparr>description = (if description' \<noteq> [] then Some description' else None),
          preview = (if truthy preview' then preview' else None),
          media = None\<rparr>)"

text \<open>The body of the loop over the rows \<open>tbody > tr\<close>.\<close>

definition tableCellUrl :: "element \<Rightarrow> jsstring option" where
  "tableCellUrl el =
     (let td = findIn [el] (Simple (Tag (str ''td'')))
      in orElse (attr (findIn (eqAt td 2) (Simple (Tag (str ''a'')))) (str ''href''))
                (attr (findIn (eqAt td 2) (Simple (Tag (str ''button'')))) (str ''onclick'')))"

definition tableRowMedia :: "element \<Rightarrow> SnapSaveDownloaderMedia" where
  "tableRowMedia el =
     (let td = findIn [el] (Simple (Tag (str ''td'')));
          resolution' = textOf (eqAt td 0);
          mediaUrl = tableCellUrl el;
          shouldRender' = testProgressApi (case mediaUrl of None \<Rightarrow> [] | Some s \<Rightarrow> s);
          mediaUrl' =
            (if shouldRender'
             then orElse
                    (Some (str ''https://snapsave.app'' @
                       strOrUndefined
                         (execProgressApi (case mediaUrl of None \<Rightarrow> [] | Some s \<Rightarrow> s))))
                    mediaUrl
             else mediaUrl)
      in \<lparr>url = mediaUrl',
          type = (if resolution' \<noteq> [] then Video else Image),
          resolution = Some resolution',
          thumbnail = None,
          shouldRender = (if shouldRender' then Some True else None)\<rparr>)"

definition extractTableMedia :: "node list \<Rightarrow> SnapSaveDownloaderMedia list" where
  "extractTableMedia doc =
     map tableRowMedia (select doc (Child (Tag (str ''tbody'')) (Tag (str ''tr''))))"

text \<open>The body of the loop over the cards \<open>div.card\<close>.\<close>

definition cardText :: "element \<Rightarrow> jsstring" where
  "cardText el =
     trim (textOf (findIn (findIn [el] (Simple (TagClass (str ''div'') (str ''card-body''))))
                          (Simple (Tag (str ''a'')))))"

definition cardMedia :: "element \<Rightarrow> SnapSaveDownloaderMedia" where
  "cardMedia el =
     (let cardBody = findIn [el] (Simple (TagClass (str ''div'') (str ''card-body'')));
          aText = cardText el;
          url' = attr (findIn cardBody (Simple (Tag (str ''a'')))) (str ''href'')
      in \<lparr>url = url',
          type = (if aText = str ''Download Photo'' then Image else Video),
          resolution = None, thumbnail = None, shouldRender = None\<rparr>)"

definition extractCardMedia :: "node list \<Rightarrow> SnapSaveDownloaderMedia list" where
  "extractCardMedia doc =
     map cardMedia (select doc (Simple (TagClass (str ''div'') (str ''card''))))"

definition simpleText :: "node list \<Rightarrow> jsstring" where
  "simpleText doc = trim (textOf (select doc (Simple (Tag (str ''a'')))))"

definition extractSimpleMedia :: "node list \<Rightarrow> SnapSaveDownloaderMedia list" where
  "extractSimpleMedia doc =
     (let url' = orElse (attr (select doc (Simple (Tag (str ''a'')))) (str ''href''))
                        (attr (select doc (Simple (Tag (str ''button'')))) (str ''onclick''));
          aText = simpleText doc
      in [\<lparr>url = url',
           type = (if aText = str ''Download Photo'' then Image else Video),
           resolution = None, thumbnail = None, shouldRender = None\<rparr>])"

text \<open>
  The body of the loop over the groups \<open>div.download-items\<close>. \<open>fixThumbnail\<close> can throw,
  and then the whole extraction throws.
\<close>

definition itemText :: "element \<Rightarrow> jsstring" where
  "itemText el =
     trim (textOf (findIn (findIn [el] (Simple (TagClass (str ''div'') (str ''download-items__btn''))))
                          (Simple (Tag (str ''span'')))))"

definition downloadItemMedia :: "element \<Rightarrow> error + SnapSaveDownloaderMedia" where
  "downloadItemMedia el =
     (let itemThumbnail =
            attr (findIn [el] (Child (TagClass (str ''div'') (str ''download-items__thumb''))
                                     (Tag (str ''img''))))
                 (str ''src'');
          itemBtn = findIn [el] (Simple (TagClass (str ''div'') (str ''download-items__btn'')));
          url' = attr (findIn itemBtn (Simple (Tag (str ''a'')))) (str ''href'');
          spanText = itemText el;
          type' = (if spanText = str ''Download Photo'' then Image else Video)
      in if type' = Video \<and> truthy itemThumbnail
         then (case fixThumbnail (strOrUndefined itemThumbnail) of
                 Inl e \<Rightarrow> Inl e
               | Inr t \<Rightarrow> Inr \<lparr>url = url', type = type', resolution = None,
                               thumbnail = Some t, shouldRender = None\<rparr>)
         else Inr \<lparr>url = url', type = type', resolution = None,
                    thumbnail = None, shouldRender = None\<rparr>)"

fun eachItem :: "element list \<Rightarrow> error + SnapSaveDownloaderMedia list" where
  "eachItem [] = Inr []"
| "eachItem (el # els) =
     (case downloadItemMedia el of
        Inl e \<Rightarrow> Inl e
      | Inr m \<Rightarrow> (case eachItem els of Inl e \<Rightarrow> Inl e | Inr ms \<Rightarrow> Inr (m # ms)))"

definition extractDownloadItemsMedia :: "node list \<Rightarrow> error + SnapSaveDownloaderMedia list" where
  "extractDownloadItemsMedia doc =
     eachItem (select doc (Simple (TagClass (str ''div'') (str ''download-items''))))"

section \<open>The workflow: \<open>SnapSaverService.download\<close> (src/utils.ts, lines 336 to 402)\<close>

record SnapSaveDownloaderResponse =
  success :: bool
  message :: "jsstring option"
  data :: "SnapSaveDownloaderData option"

text \<open>\<open>UrlValidator.isValid\<close>: some pattern of the list matches the address.\<close>

definition isValid :: "(jsstring \<Rightarrow> bool) list \<Rightarrow> jsstring \<Rightarrow> bool" where
  "isValid supportedRegexes link = list_ex (\<lambda>regex. regex link) supportedRegexes"

text \<open>
  The part of \<open>download\<close> that chooses an extractor (lines 356 to 378): the metadata and
  the media list it leaves in \<open>data\<close> and \<open>media\<close>.
\<close>

definition extractLayout ::
  "node list \<Rightarrow> error + SnapSaveDownloaderData \<times> SnapSaveDownloaderMedia list" where
  "extractLayout doc =
     (if select doc (Simple (TagClass (str ''table'') (str ''table''))) \<noteq> [] \<or>
         select doc (Child (TagClass (str ''article'') (str ''media'')) (Tag (str ''figure''))) \<noteq> []
      then
        (if select doc (Simple (TagClass (str ''table'') (str ''table''))) \<noteq> []
         then Inr (extractMetadata doc, extractTableMedia doc)
         else if select doc (Simple (TagClass (str ''div'') (str ''card''))) \<noteq> []
         then Inr (extractMetadata doc, extractCardMedia doc)
         else Inr (extractMetadata doc, extractSimpleMedia doc))
      else if select doc (Simple (TagClass (str ''div'') (str ''download-items''))) \<noteq> []
      then (case extractDownloadItemsMedia doc of
              Inl e \<Rightarrow> Inl e
            | Inr ms \<Rightarrow> Inr (\<lparr>description = None, preview = None, media = None\<rparr>, ms))
      else Inr (\<lparr>description = None, preview = None, media = None\<rparr>, []))"

text \<open>Lines 380 to 393: the answer built from the media list.\<close>

definition respond ::
  "SnapSaveDownloaderData \<Rightarrow> SnapSaveDownloaderMedia list \<Rightarrow> SnapSaveDownloaderResponse" where
  "respond d ms =
     (if ms = []
      then \<lparr>success = False, message = Some (str ''No downloadable media found''), data = None\<rparr>
      else \<lparr>success = True, message = None, data = Some (d\<lparr>media := Some ms\<rparr>)\<rparr>)"

text \<open>
  The body of the \<open>try\<close> block. The collaborators are parameters: the patterns of the
  validator, the request \<open>fetchMedia\<close> (which returns the response text or fails),
  \<open>decrypt\<close> (which returns the decoded HTML, throws, or does not return) and the parser
  \<open>load\<close>. \<open>Inl\<close> is an exception thrown inside the block, \<open>None\<close> a call that never
  returns.
\<close>

definition downloadBody ::
  "(jsstring \<Rightarrow> bool) list \<Rightarrow> (jsstring \<Rightarrow> error + jsstring) \<Rightarrow>
   (jsstring \<Rightarrow> (error + jsstring) option) \<Rightarrow> (jsstring \<Rightarrow> node list) \<Rightarrow> jsstring \<Rightarrow>
   (error + SnapSaveDownloaderResponse) option" where
  "downloadBody supportedRegexes fetchMedia decrypt load link =
     (if \<not> isValid supportedRegexes link
      then Some (Inr \<lparr>success = False, message = Some (str ''Invalid URL''), data = None\<rparr>)
      else (case fetchMedia link of
              Inl e \<Rightarrow> Some (Inl e)
            | Inr html \<Rightarrow>
                (case decrypt html of
                   None \<Rightarrow> None
                 | Some (Inl e) \<Rightarrow> Some (Inl e)
                 | Some (Inr decodedHtml) \<Rightarrow>
                     (case extractLayout (load decodedHtml) of
                        Inl e \<Rightarrow> Some (Inl e)
                      | Inr (d, ms) \<Rightarrow> Some (Inr (respond d ms))))))"

text \<open>The \<open>catch\<close> turns every exception into the same answer.\<close>

definition download ::
  "(jsstring \<Rightarrow> bool) list \<Rightarrow> (jsstring \<Rightarrow> error + jsstring) \<Rightarrow>
   (jsstring \<Rightarrow> (error + jsstring) option) \<Rightarrow> (jsstring \<Rightarrow> node list) \<Rightarrow> jsstring \<Rightarrow>
   SnapSaveDownloaderResponse option" where
  "download supportedRegexes fetchMedia decrypt load link =
     (case downloadBody supportedRegexes fetchMedia decrypt load link of
        None \<Rightarrow> None
      | Some (Inl e) \<Rightarrow>
          Some \<lparr>success = False, message = Some (str ''Failed to process download request''),
                data = None\<rparr>
      | Some (Inr r) \<Rightarrow> Some r)"

section \<open>Example documents\<close>

text \<open>
  \<open>mkElement\<close> writes an element from Isabelle literals; in an attribute value, \<open>#\<close> stands for
  the single quote (code unit 39).
\<close>

definition mkElement :: "string \<Rightarrow> (string \<times> string) list \<Rightarrow> node list \<Rightarrow> node" where
  "mkElement t a cs =
     Element (str t) (map (\<lambda>(k, v). (str k, map (\<lambda>c. if c = 35 then 39 else c) (str v))) a) cs"

text \<open>
  A table with two rows, \<open>720p\<close> with a link and \<open>360p\<close> with a progress handler, next to
  a download-items group.
\<close>

definition tableDoc :: "node list" where
  "tableDoc =
     [mkElement ''html'' [] [mkElement ''body'' []
        [mkElement ''table'' [(''class'', ''table'')] [mkElement ''tbody'' []
           [mkElement ''tr'' []
              [mkElement ''td'' [] [Text (str ''720p'')], mkElement ''td'' [] [],
               mkElement ''td'' [] [mkElement ''a'' [(''href'', ''https://cdn/v.mp4'')] [Text (str ''Download'')]]],
            mkElement ''tr'' []
              [mkElement ''td'' [] [Text (str ''360p'')], mkElement ''td'' [] [],
               mkElement ''td'' [] [mkElement ''button'' [(''onclick'', ''get_progressApi(#/render.php?t=1#)'')]
                               [Text (str ''Render'')]]]]],
         mkElement ''div'' [(''class'', ''download-items'')] []]]]"

text \<open>A table row whose handler names the progress call without an argument in quotes.\<close>

definition bareHandlerDoc :: "node list" where
  "bareHandlerDoc =
     [mkElement ''html'' [] [mkElement ''body'' []
        [mkElement ''table'' [(''class'', ''table'')] [mkElement ''tbody'' []
           [mkElement ''tr'' []
              [mkElement ''td'' [] [Text (str ''360p'')], mkElement ''td'' [] [],
               mkElement ''td'' [] [mkElement ''button'' [(''onclick'', ''get_progressApi()'')] []]]]]]]]"

text \<open>A table row with a resolution whose link is labelled \<open>Download Photo\<close>.\<close>

definition photoRowDoc :: "node list" where
  "photoRowDoc =
     [mkElement ''html'' [] [mkElement ''body'' []
        [mkElement ''table'' [(''class'', ''table'')] [mkElement ''tbody'' []
           [mkElement ''tr'' []
              [mkElement ''td'' [] [Text (str ''720p'')], mkElement ''td'' [] [],
               mkElement ''td'' [] [mkElement ''a'' [(''href'', ''https://cdn/p.jpg'')]
                               [Text (str ''Download Photo'')]]]]]]]]"

text \<open>One download-items group: a thumbnail behind the proxy and a photo button.\<close>

definition itemsDoc :: "node list" where
  "itemsDoc =
     [mkElement ''html'' [] [mkElement ''body'' []
        [mkElement ''div'' [(''class'', ''download-items'')]
           [mkElement ''div'' [(''class'', ''download-items__thumb'')]
              [mkElement ''img'' [(''src'', ''https://snapinsta.app/photo.php?photo=a%2Fb'')] []],
            mkElement ''div'' [(''class'', ''download-items__btn'')]
              [mkElement ''a'' [(''href'', ''https://cdn/p.jpg'')]
                 [mkElement ''span'' [] [Text (str '' Download Photo '')]]]]]]]"

text \<open>A video group whose thumbnail address ends in a lone percent sign.\<close>

definition badThumbDoc :: "node list" where
  "badThumbDoc =
     [mkElement ''html'' [] [mkElement ''body'' []
        [mkElement ''div'' [(''class'', ''download-items'')]
           [mkElement ''div'' [(''class'', ''download-items__thumb'')]
              [mkElement ''img'' [(''src'', ''https://snapinsta.app/photo.php?photo=%'')] []],
            mkElement ''div'' [(''class'', ''download-items__btn'')]
              [mkElement ''a'' [(''href'', ''https://cdn/v.mp4'')]
                 [mkElement ''span'' [] [Text (str ''Download Video'')]]]]]]]"

text \<open>A figure with a preview image and nothing to download.\<close>

definition figureDoc :: "node list" where
  "figureDoc =
     [mkElement ''html'' [] [mkElement ''body'' []
        [mkElement ''article'' [(''class'', ''media'')]
           [mkElement ''figure'' [] [mkElement ''img'' [(''src'', ''https://cdn/t.jpg'')] []]]]]]"

text \<open>A card with a photo link.\<close>

definition cardDoc :: "node list" where
  "cardDoc =
     [mkElement ''html'' [] [mkElement ''body'' []
        [mkElement ''article'' [(''class'', ''media'')] [mkElement ''figure'' [] []],
         mkElement ''div'' [(''class'', ''card'')]
           [mkElement ''div'' [(''class'', ''card-body'')]
              [mkElement ''a'' [(''href'', ''https://cdn/p.jpg'')] [Text (str ''Download Photo'')]]]]]]"

text \<open>
  A table without the class \<open>table\<close>, with one row, next to a download-items group with
  a video link.
\<close>

definition plainTableDoc :: "node list" where
  "plainTableDoc =
     [mkElement ''html'' [] [mkElement ''body'' []
        [mkElement ''table'' [] [mkElement ''tbody'' []
           [mkElement ''tr'' []
              [mkElement ''td'' [] [Text (str ''720p'')], mkElement ''td'' [] [],
               mkElement ''td'' [] [mkElement ''a'' [(''href'', ''https://cdn/v.mp4'')]
                               [Text (str ''Download'')]]]]],
         mkElement ''div'' [(''class'', ''download-items'')]
           [mkElement ''div'' [(''class'', ''download-items__btn'')]
              [mkElement ''a'' [(''href'', ''https://cdn/w.mp4'')]
                 [mkElement ''span'' [] [Text (str ''Download Video'')]]]]]]]"

section \<open>Functions used in the proofs only\<close>

text \<open>The digits the loop produces, as a function used in the proofs only.\<close>

function baseDigits :: "nat \<Rightarrow> nat \<Rightarrow> jsstring" where
  "baseDigits b n =
     (if n = 0 \<or> b < 2 then [] else baseDigits b (n div b) @ [charset ! (n mod b)])"
  by pat_completeness auto
termination
  by (relation "measure snd") auto

declare baseDigits.simps [simp del]

text \<open>
  The decoder's two modes on the same bytes: the lenient run never fails, and it returns
  what the strict run returns, or a text with U+FFFD in it when the strict run fails.
\<close>

definition sameOrReplaced :: "error + nat list \<Rightarrow> error + nat list \<Rightarrow> bool" where
  "sameOrReplaced strict lenient =
     (case lenient of
        Inl e \<Rightarrow> False
      | Inr cps \<Rightarrow> (case strict of Inl e \<Rightarrow> 65533 \<in> set cps | Inr cps' \<Rightarrow> cps' = cps))"

text \<open>The selectors of the workflow and the label that marks a photo, by name.\<close>

abbreviation tableSel :: selector where
  "tableSel \<equiv> Simple (TagClass (str ''table'') (str ''table''))"

abbreviation figureSel :: selector where
  "figureSel \<equiv> Child (TagClass (str ''article'') (str ''media'')) (Tag (str ''figure''))"

abbreviation cardSel :: selector where
  "cardSel \<equiv> Simple (TagClass (str ''div'') (str ''card''))"

abbreviation itemsSel :: selector where
  "itemsSel \<equiv> Simple (TagClass (str ''div'') (str ''download-items''))"

abbreviation rowSel :: selector where
  "rowSel \<equiv> Child (Tag (str ''tbody'')) (Tag (str ''tr''))"

abbreviation anchorSel :: selector where
  "anchorSel \<equiv> Simple (Tag (str ''a''))"

abbreviation buttonSel :: selector where
  "buttonSel \<equiv> Simple (Tag (str ''button''))"

abbreviation downloadPhoto :: jsstring where
  "downloadPhoto \<equiv> str ''Download Photo''"

text \<open>The action value of a row as the two regular expressions read it.\<close>

definition actionText :: "element \<Rightarrow> jsstring" where
  "actionText el = (case tableCellUrl el of None \<Rightarrow> [] | Some s \<Rightarrow> s)"

text \<open>The text of the first cell of a row.\<close>

definition resolutionText :: "element \<Rightarrow> jsstring" where
  "resolutionText el = textOf (eqAt (findIn [el] (Simple (Tag (str ''td'')))) 0)"

text \<open>The three answers that report a failure.\<close>

definition invalidUrl :: SnapSaveDownloaderResponse where
  "invalidUrl = \<lparr>success = False, message = Some (str ''Invalid URL''), data = None\<rparr>"

definition noMedia :: SnapSaveDownloaderResponse where
  "noMedia =
     \<lparr>success = False, message = Some (str ''No downloadable media found''), data = None\<rparr>"

definition failedRequest :: SnapSaveDownloaderResponse where
  "failedRequest =
     \<lparr>success = False, message = Some (str ''Failed to process download request''),
      data = None\<rparr>"

text \<open>The descriptor without an address that the simple layout returns for a document
  with no link and no button.\<close>

definition noUrlItem :: SnapSaveDownloaderMedia where
  "noUrlItem =
     \<lparr>url = None, type = Video, resolution = None, thumbnail = None, shouldRender = None\<rparr>"

text \<open>
  The proxy prefix of \<open>fixThumbnail\<close>, and percent-encoded text: a piece is a plain code
  unit other than the percent sign, or an escape \<open>%XX\<close> of an octet below 128 in upper
  case hexadecimal digits. \<open>written\<close> is the piece as it stands in the address, \<open>meant\<close>
  the code unit it stands for.
\<close>

definition proxyPrefix :: jsstring where
  "proxyPrefix = str ''https://snapinsta.app/photo.php?photo=''"

definition hexChar :: "nat \<Rightarrow> nat" where
  "hexChar d = (if d < 10 then 48 + d else 55 + d)"

datatype piece = Plain nat | Escaped nat

fun written :: "piece \<Rightarrow> jsstring" where
  "written (Plain c) = [c]"
| "written (Escaped b) = [37, hexChar (b div 16), hexChar (b mod 16)]"

fun meant :: "piece \<Rightarrow> nat" where
  "meant (Plain c) = c"
| "meant (Escaped b) = b"

fun wellFormed :: "piece \<Rightarrow> bool" where
  "wellFormed (Plain c) = (c \<noteq> 37)"
| "wellFormed (Escaped b) = (b < 128)"

section \<open>Properties of the base converter\<close>

lemma charset_length: "length charset = 64"
  by (simp add: charset_def str_def)

lemma charset_distinct: "distinct charset"
  by (simp add: charset_def str_def)

lemma indexOf_nth: "distinct xs \<Longrightarrow> k < length xs \<Longrightarrow> indexOf xs (xs ! k) = Some k"
proof (induction xs arbitrary: k)
  case Nil
  then show ?case by simp
next
  case (Cons x xs)
  show ?case
  proof (cases k)
    case 0
    then show ?thesis by simp
  next
    case (Suc j)
    with Cons.prems have "xs ! j \<in> set xs" "x \<notin> set xs" "j < length xs" by auto
    then have "x \<noteq> xs ! j" by auto
    with Suc Cons show ?thesis by simp
  qed
qed

lemma indexOf_charset:
  assumes "k < b" "b \<le> 64"
  shows "indexOf (take b charset) (charset ! k) = Some k"
proof -
  have "distinct (take b charset)" using charset_distinct by simp
  moreover have "k < length (take b charset)" using assms charset_length by simp
  ultimately have "indexOf (take b charset) (take b charset ! k) = Some k"
    by (rule indexOf_nth)
  then show ?thesis using assms by simp
qed

lemma encodeLoop_digits:
  assumes "2 \<le> b" "b \<le> 64"
  shows "encodeLoop n b result = Some (baseDigits b n @ result)"
proof (induction n arbitrary: result rule: less_induct)
  case (less n)
  show ?case
  proof (cases "n = 0")
    case True
    then show ?thesis by (simp add: encodeLoop.simps baseDigits.simps)
  next
    case False
    with assms have lt: "n div b < n" by simp
    have m: "n mod b < b" using assms by simp
    then have c: "charAt (take b charset) (n mod b) = Some (charset ! (n mod b))"
      using assms charset_length by (simp add: charAt_def)
    have d: "(n - n mod b) div b = n div b"
      by (metis minus_mod_eq_mult_div nonzero_mult_div_cancel_left
          assms(1) not_numeral_le_zero)
    have "encodeLoop n b result =
            encodeLoop (n div b) b ([charset ! (n mod b)] @ result)"
      using False assms by (subst encodeLoop.simps) (simp add: c d toStr_def)
    also have "\<dots> = Some (baseDigits b (n div b) @ [charset ! (n mod b)] @ result)"
      by (rule less.IH [OF lt])
    also have "\<dots> = Some (baseDigits b n @ result)"
      using False assms by (subst (2) baseDigits.simps) simp
    finally show ?thesis .
  qed
qed

lemma reduceDigits_digits:
  assumes "2 \<le> b" "b \<le> 64"
  shows "reduceDigits (take b charset) b (rev (baseDigits b n)) i acc = acc + n * b ^ i"
proof (induction n arbitrary: i acc rule: less_induct)
  case (less n)
  show ?case
  proof (cases "n = 0")
    case True
    then show ?thesis by (simp add: baseDigits.simps)
  next
    case False
    with assms have lt: "n div b < n" by simp
    have m: "n mod b < b" using assms by simp
    have r: "rev (baseDigits b n) = charset ! (n mod b) # rev (baseDigits b (n div b))"
      using False assms by (subst baseDigits.simps) simp
    have "reduceDigits (take b charset) b (rev (baseDigits b n)) i acc =
            reduceDigits (take b charset) b (rev (baseDigits b (n div b))) (Suc i)
              (acc + (n mod b) * b ^ i)"
      by (simp add: r indexOf_charset [OF m assms(2)])
    also have "\<dots> = acc + (n mod b) * b ^ i + (n div b) * b ^ Suc i"
      by (rule less.IH [OF lt])
    also have "\<dots> = acc + n * b ^ i"
    proof -
      have "n mod b * b ^ i + n div b * b ^ Suc i = (n mod b + n div b * b) * b ^ i"
        by (simp only: distrib_right power_Suc mult.assoc)
      also have "\<dots> = n * b ^ i" by simp
      finally show ?thesis by simp
    qed
    finally show ?thesis .
  qed
qed

lemma baseDigits_nonempty: "2 \<le> b \<Longrightarrow> 0 < n \<Longrightarrow> baseDigits b n \<noteq> []"
  by (subst baseDigits.simps) simp

lemma toBaseB_digits:
  assumes "2 \<le> b" "b \<le> 64"
  shows "toBaseB n b = Some (if n = 0 then str ''0'' else baseDigits b n)"
proof (cases "n = 0")
  case True
  then show ?thesis by (simp add: toBaseB_def encodeLoop.simps)
next
  case False
  then show ?thesis
    using baseDigits_nonempty [OF assms(1), of n]
    by (simp add: toBaseB_def encodeLoop_digits [OF assms])
qed

lemma toBase10_zero: "0 < b \<Longrightarrow> toBase10 (str ''0'') b = 0"
  by (cases b) (simp_all add: toBase10_def str_def charset_def)

lemma toBase10_toBaseB:
  assumes "2 \<le> b" "b \<le> 64"
  shows "\<exists>s. toBaseB n b = Some s \<and> toBase10 s b = n"
proof (cases "n = 0")
  case True
  then show ?thesis using assms by (simp add: toBaseB_digits toBase10_zero)
next
  case False
  then show ?thesis
    using reduceDigits_digits [OF assms, of n 0 0]
    by (simp add: toBaseB_digits [OF assms] toBase10_def)
qed

text \<open>
  C2. For all bases \<open>b1\<close> and \<open>b2\<close> between 2 and 64 and every non-negative integer \<open>n\<close>
  that the number type holds exactly: writing \<open>n\<close> in base \<open>b1\<close>, converting that digit
  string to base \<open>b2\<close> and converting the result back to base 10 with the same converter
  all return, the digit string in base \<open>b2\<close> has the value \<open>n\<close>, and the decimal text
  obtained at the end is the decimal text of \<open>n\<close>.
\<close>

theorem decodeNumber_roundtrip:
  assumes "2 \<le> b1" "b1 \<le> 64" "2 \<le> b2" "b2 \<le> 64" "n < 2 ^ 53"
  shows "\<exists>v s. toBaseB n b1 = Some v \<and> decodeNumber v b1 b2 = Some s \<and>
           toBase10 s b2 = n \<and> decodeNumber s b2 10 = toBaseB n 10"
proof -
  obtain v where v: "toBaseB n b1 = Some v" "toBase10 v b1 = n"
    using toBase10_toBaseB [OF assms(1,2)] by blast
  obtain s where s: "toBaseB n b2 = Some s" "toBase10 s b2 = n"
    using toBase10_toBaseB [OF assms(3,4)] by blast
  show ?thesis using v s by (simp add: decodeNumber_def)
qed

theorem decodeNumber_roundtrip_witness:
  "(2::nat) \<le> 16 \<and> (16::nat) \<le> 64 \<and> (2::nat) \<le> 2 \<and> (2::nat) \<le> 64 \<and> (255::nat) < 2 ^ 53 \<and>
   (\<exists>v s. toBaseB 255 16 = Some v \<and> decodeNumber v 16 2 = Some s \<and>
      toBase10 s 2 = 255 \<and> decodeNumber s 2 10 = toBaseB 255 10)"
  using decodeNumber_roundtrip [of 16 2 255] by simp

text \<open>The same run, computed: 255 is \<open>ff\<close> in base 16 and \<open>11111111\<close> in base 2.\<close>

lemma decodeNumber_example:
  "toBaseB 255 16 = Some (str ''ff'')"
  "decodeNumber (str ''ff'') 16 2 = Some (str ''11111111'')"
  "decodeNumber (str ''11111111'') 2 10 = Some (str ''255'')"
  by (simp_all add: decodeNumber_def toBaseB_def toBase10_def encodeLoop.simps charset_def
      str_def charAt_def toStr_def)

section \<open>Properties of the payload decoder\<close>

lemma scanSegment_example:
  "scanSegment (str ''bcabc'') (Some 97) 0 [] = Some (2, str ''bc'')"
  by (simp add: scanSegment.simps str_def charAt_def toStr_def)

text \<open>
  A run of the whole decoder: with the symbol map \<open>abcdefghij\<close>, base 9 and offset 1, the
  segments \<open>ib\<close> and \<open>hc\<close> are the base-9 numbers 81 and 72, that is 73 and 65, and the
  text is \<open>H@\<close>.
\<close>

lemma decodeSnapApp_example:
  "decodeSnapApp (str ''ibjhcj'') (str ''abcdefghij'') 1 9 = Some (Inr (str ''H@''))"
  by (simp add: decodeSnapApp_def decodeLoop.simps scanSegment.simps str_def charAt_def
      toStr_def substituteFrom.simps replaceSymbol_def natToString.simps decodeNumber_def
      toBaseB_def toBase10_def encodeLoop.simps charset_def numberOfDigits_def
      fromCharCode_def fixEncoding_def textDecoderDecode_def decodeError_def consR_def
      dropBOM_def utf16Encode_def)

text \<open>The scan does not return once no later position holds the delimiter.\<close>

lemma scanSegment_not_Some:
  assumes "scanSegment encodedContent delimiter i segment = Some r"
  shows "\<exists>k\<ge>i. charAt encodedContent k = delimiter"
proof (rule scanSegment.raw_induct
    [where P = "\<lambda>c d j s r. \<exists>k\<ge>j. charAt c k = d", OF _ assms])
  fix scan :: "jsstring \<Rightarrow> nat option \<Rightarrow> nat \<Rightarrow> jsstring \<Rightarrow> (nat \<times> jsstring) option"
    and c d j s r'
  assume IH: "\<And>c d j s r'. scan c d j s = Some r' \<Longrightarrow> \<exists>k\<ge>j. charAt c k = d"
  assume body: "(if charAt c j \<noteq> d then scan c d (Suc j) (s @ toStr (charAt c j))
                 else Some (j, s)) = Some r'"
  show "\<exists>k\<ge>j. charAt c k = d"
  proof (cases "charAt c j = d")
    case True
    then show ?thesis by blast
  next
    case False
    with body have "scan c d (Suc j) (s @ toStr (charAt c j)) = Some r'"
      by simp
    then obtain k where "Suc j \<le> k" "charAt c k = d"
      using IH by blast
    then show ?thesis using Suc_leD by blast
  qed
qed

lemma scanSegment_diverges:
  assumes "d \<notin> set encodedContent"
  shows "scanSegment encodedContent (Some d) i segment = None"
proof (cases "scanSegment encodedContent (Some d) i segment")
  case None
  then show ?thesis .
next
  case (Some r)
  then obtain k where "charAt encodedContent k = Some d"
    using scanSegment_not_Some by blast
  then have "d \<in> set encodedContent"
    by (auto simp: charAt_def split: if_splits)
  with assms show ?thesis by simp
qed

lemma decodeSnapApp_empty: "decodeSnapApp [] charMap subtractValue base = Some (Inr [])"
  by (simp add: decodeSnapApp_def decodeLoop.simps fixEncoding_def textDecoderDecode_def
      dropBOM_def)

text \<open>
  C1. The claim asks that a \<open>cipherText\<close> with no occurrence of the delimiter (the symbol
  at index \<open>base\<close> of \<open>charMap\<close>) makes the decoder fail after a scan bounded by the length
  of \<open>cipherText\<close>. The code does not: whenever \<open>cipherText\<close> is not empty, the inner
  scan runs past the end of \<open>cipherText\<close> and \<open>decodeSnapApp\<close> never returns, neither a
  text nor an error.
\<close>

theorem decodeSnapApp_no_delimiter:
  assumes "encodedContent \<noteq> []"
    and "charAt charMap base = Some d"
    and "d \<notin> set encodedContent"
  shows "decodeSnapApp encodedContent charMap subtractValue base = None"
proof -
  have "0 < length encodedContent" using assms(1) by simp
  then have "decodeLoop encodedContent charMap subtractValue base 0 [] = None"
    by (subst decodeLoop.simps)
      (simp add: assms(2) scanSegment_diverges [OF assms(3)])
  then show ?thesis by (simp add: decodeSnapApp_def)
qed

theorem decodeSnapApp_no_delimiter_witness:
  "str ''a'' \<noteq> [] \<and> charAt (str ''ab'') 1 = Some 98 \<and> 98 \<notin> set (str ''a'') \<and>
   decodeSnapApp (str ''a'') (str ''ab'') 0 1 = None"
  using decodeSnapApp_no_delimiter [of "str ''a''" "str ''ab''" 1 98 0]
  by (simp add: str_def charAt_def)

subsection \<open>The byte repair\<close>

lemma sameOrReplaced_consR:
  "sameOrReplaced r r' \<Longrightarrow> sameOrReplaced (consR x r) (consR x r')"
  by (auto simp: sameOrReplaced_def consR_def split: sum.splits)

lemma sameOrReplaced_decodeError:
  "sameOrReplaced r r' \<Longrightarrow> sameOrReplaced (decodeError True r) (decodeError False r')"
  by (auto simp: sameOrReplaced_def consR_def decodeError_def split: sum.splits)

lemma utf8Run_sameOrReplaced:
  fixes fatal :: bool
  shows "sameOrReplaced (utf8Run True bs cp sn nd lo hi) (utf8Run False bs cp sn nd lo hi)"
proof (induction fatal bs cp sn nd lo hi rule: utf8Run.induct)
  case (1 fatal codePoint bytesSeen bytesNeeded lower upper)
  then show ?case by (simp add: decodeError_def consR_def sameOrReplaced_def)
next
  case (2 fatal b bs codePoint bytesSeen bytesNeeded lower upper)
  show ?case
  proof (cases "bytesNeeded = 0")
    case True
    note n0 = this
    consider (ascii) "b \<le> 127" | (two) "\<not> b \<le> 127" "194 \<le> b \<and> b \<le> 223"
      | (three) "\<not> b \<le> 127" "\<not> (194 \<le> b \<and> b \<le> 223)" "224 \<le> b \<and> b \<le> 239"
      | (four) "\<not> b \<le> 127" "\<not> (194 \<le> b \<and> b \<le> 223)" "\<not> (224 \<le> b \<and> b \<le> 239)"
          "240 \<le> b \<and> b \<le> 244"
      | (bad) "\<not> b \<le> 127" "\<not> (194 \<le> b \<and> b \<le> 223)" "\<not> (224 \<le> b \<and> b \<le> 239)"
          "\<not> (240 \<le> b \<and> b \<le> 244)"
      by blast
    then show ?thesis
    proof cases
      case ascii
      have "utf8Run f (b # bs) codePoint bytesSeen bytesNeeded lower upper =
          consR b (utf8Run f bs 0 0 0 128 191)" for f
        by (subst utf8Run.simps) (simp only: n0 ascii if_True simp_thms)
      then show ?thesis
        using sameOrReplaced_consR [OF 2(1) [OF n0 ascii]] by simp
    next
      case two
      have "utf8Run f (b # bs) codePoint bytesSeen bytesNeeded lower upper =
          utf8Run f bs (b - 192) 0 1 128 191" for f
        by (subst utf8Run.simps) (simp only: n0 two if_True if_False simp_thms)
      then show ?thesis using 2(2) [OF n0 two] by simp
    next
      case three
      have "utf8Run f (b # bs) codePoint bytesSeen bytesNeeded lower upper =
          utf8Run f bs (b - 224) 0 2
            (if b = 224 then 160 else 128) (if b = 237 then 159 else 191)" for f
        by (subst utf8Run.simps) (simp only: n0 three if_True if_False simp_thms)
      then show ?thesis using 2(3) [OF n0 three] by simp
    next
      case four
      have "utf8Run f (b # bs) codePoint bytesSeen bytesNeeded lower upper =
          utf8Run f bs (b - 240) 0 3
            (if b = 240 then 144 else 128) (if b = 244 then 143 else 191)" for f
        by (subst utf8Run.simps) (simp only: n0 four if_True if_False simp_thms)
      then show ?thesis using 2(4) [OF n0 four] by simp
    next
      case bad
      have "utf8Run f (b # bs) codePoint bytesSeen bytesNeeded lower upper =
          decodeError f (utf8Run f bs 0 0 0 128 191)" for f
        by (subst utf8Run.simps) (simp only: n0 bad if_True if_False simp_thms)
      then show ?thesis
        using sameOrReplaced_decodeError [OF 2(5) [OF n0 bad]] by simp
    qed
  next
    case False
    note n1 = this
    consider (restore) "b < lower \<or> upper < b"
      | (more) "\<not> (b < lower \<or> upper < b)" "Suc bytesSeen \<noteq> bytesNeeded"
      | (complete) "\<not> (b < lower \<or> upper < b)" "\<not> Suc bytesSeen \<noteq> bytesNeeded"
      by blast
    then show ?thesis
    proof cases
      case restore
      have "utf8Run f (b # bs) codePoint bytesSeen bytesNeeded lower upper =
          decodeError f (utf8Run f (b # bs) 0 0 0 128 191)" for f
        by (subst utf8Run.simps) (simp only: n1 restore if_True if_False simp_thms)
      then show ?thesis
        using sameOrReplaced_decodeError [OF 2(6) [OF n1 restore]] by simp
    next
      case more
      have "utf8Run f (b # bs) codePoint bytesSeen bytesNeeded lower upper =
          utf8Run f bs (codePoint * 64 + (b - 128)) (Suc bytesSeen) bytesNeeded 128 191" for f
        by (subst utf8Run.simps) (simp only: n1 more if_True if_False simp_thms)
      then show ?thesis using 2(7) [OF n1 more] by simp
    next
      case complete
      have "utf8Run f (b # bs) codePoint bytesSeen bytesNeeded lower upper =
          consR (codePoint * 64 + (b - 128)) (utf8Run f bs 0 0 0 128 191)" for f
        by (subst utf8Run.simps) (simp only: n1 complete if_True if_False simp_thms)
      then show ?thesis
        using sameOrReplaced_consR [OF 2(8) [OF n1 complete]] by simp
    qed
  qed
qed

lemma fixEncoding_example:
  "fixEncoding [195, 169, 65, 226, 130, 172, 240, 159, 152, 128] =
     Inr [233, 65, 8364, 55357, 56832]"
  by (simp add: fixEncoding_def textDecoderDecode_def decodeError_def consR_def dropBOM_def
      utf16Encode_def)

text \<open>
  C3, as the claim states it, fails: the byte \<open>255\<close> alone is not valid UTF-8 (the
  decoder in its \<open>fatal\<close> mode rejects it), and \<open>fixEncoding\<close> returns the replacement
  character U+FFFD for it instead of failing.
\<close>

theorem fixEncoding_invalid_counterexample:
  "\<not> validUtf8 (map (\<lambda>c. c mod 256) [255]) \<and> fixEncoding [255] = Inr [65533]"
  by (simp add: validUtf8_def fixEncoding_def textDecoderDecode_def decodeError_def
      consR_def dropBOM_def utf16Encode_def)

text \<open>
  C3, amended. The byte repair never fails: \<open>fixEncoding\<close> returns a text for every input,
  and when the bytes are not valid UTF-8 that text holds the replacement character U+FFFD
  where the malformed bytes were.
\<close>

theorem fixEncoding_replaces:
  "\<exists>t. fixEncoding s = Inr t \<and>
     (\<not> validUtf8 (map (\<lambda>c. c mod 256) s) \<longrightarrow> 65533 \<in> set t)"
proof -
  let ?bytes = "map (\<lambda>c. c mod 256) s"
  have rel: "sameOrReplaced (utf8Run True ?bytes 0 0 0 128 191)
      (utf8Run False ?bytes 0 0 0 128 191)"
    by (rule utf8Run_sameOrReplaced)
  then obtain cps where run: "utf8Run False ?bytes 0 0 0 128 191 = Inr cps"
    by (auto simp: sameOrReplaced_def split: sum.splits)
  have enc: "65533 \<in> set (concat (map utf16Encode (dropBOM cps)))" if "65533 \<in> set cps"
  proof -
    have "65533 \<in> set (dropBOM cps)"
      using that by (cases cps) (auto simp: dropBOM_def)
    moreover have "utf16Encode 65533 = [65533]" by (simp add: utf16Encode_def)
    ultimately show ?thesis by force
  qed
  have "fixEncoding s = Inr (concat (map utf16Encode (dropBOM cps)))"
    by (simp add: fixEncoding_def textDecoderDecode_def run)
  moreover have "\<not> validUtf8 ?bytes \<Longrightarrow> 65533 \<in> set cps"
    using rel run by (auto simp: validUtf8_def sameOrReplaced_def split: sum.splits)
  ultimately show ?thesis using enc by blast
qed

theorem fixEncoding_replaces_witness:
  "\<not> validUtf8 (map (\<lambda>c. c mod 256) [65, 255]) \<and>
   (\<exists>t. fixEncoding [65, 255] = Inr t \<and> 65533 \<in> set t)"
proof -
  have h: "\<not> validUtf8 (map (\<lambda>c. c mod 256) [65, 255])"
    by (simp add: validUtf8_def decodeError_def consR_def)
  show ?thesis using h fixEncoding_replaces [of "[65, 255]"] by blast
qed

section \<open>Properties of the string operations\<close>

lemma strip_prefix:
  assumes "p \<noteq> []"
  shows "includesStr (p @ r) p" and "removeFirst (p @ r) p = r"
proof -
  obtain c cs where p: "p = c # cs" using assms by (cases p) auto
  show "includesStr (p @ r) p" by (simp add: p startsWith_def)
  show "removeFirst (p @ r) p = r" by (simp add: p startsWith_def)
qed

lemma proxyPrefix_nonempty: "proxyPrefix \<noteq> []"
  by (simp add: proxyPrefix_def str_def)

lemma fixThumbnail_prefix: "fixThumbnail (proxyPrefix @ r) = decodeURIComponent r"
  using strip_prefix [OF proxyPrefix_nonempty, of r]
  by (simp add: fixThumbnail_def proxyPrefix_def Let_def)

lemma hexDigit_hexChar: "d < 16 \<Longrightarrow> hexDigit (hexChar d) = Some d"
  by (auto simp: hexDigit_def hexChar_def)

lemma parseHexOctet_written:
  assumes "b < 128"
  shows "parseHexOctet (hexChar (b div 16) # hexChar (b mod 16) # rest) = Some b"
proof -
  have "b div 16 < 16" using assms by simp
  moreover have "b mod 16 < 16" by simp
  ultimately show ?thesis by (simp add: hexDigit_hexChar)
qed

text \<open>Percent-decoding gives back the text that the pieces stand for.\<close>

lemma decodeURIComponent_written:
  "list_all wellFormed ps \<Longrightarrow>
     decodeURIComponent (concat (map written ps)) = Inr (map meant ps)"
proof (induction ps)
  case Nil
  then show ?case by simp
next
  case (Cons q ps)
  then have ih: "decodeURIComponent (concat (map written ps)) = Inr (map meant ps)"
    by simp
  show ?case
  proof (cases q)
    case (Plain c)
    with Cons.prems have "c \<noteq> 37" by simp
    then show ?thesis by (simp add: Plain ih consR_def)
  next
    case (Escaped b)
    with Cons.prems have b: "b < 128" by simp
    then have l: "leadingOnes b = 0" by (simp add: leadingOnes_def)
    show ?thesis
      by (simp add: Escaped parseHexOctet_written [OF b] l ih consR_def
          del: parseHexOctet.simps)
  qed
qed

lemma fixThumbnail_example:
  "fixThumbnail
     (str ''https://snapinsta.app/photo.php?photo=https%3A%2F%2Fcdn.example.com%2Fimg.jpg'')
   = Inr (str ''https://cdn.example.com/img.jpg'')"
  by (simp add: fixThumbnail_def startsWith_def str_def hexDigit_def leadingOnes_def
      consR_def)

text \<open>
  C8. The thumbnail fix strips the proxy prefix and percent-decodes the remainder: an
  address that starts with the prefix \<open>https://snapinsta.app/photo.php?photo=\<close> is
  answered with \<open>decodeURIComponent\<close> of what follows the prefix; when what follows is
  percent-encoded text, the answer is the text it stands for; an address without the
  prefix is returned as it is. In particular
  \<open>https://snapinsta.app/photo.php?photo=https%3A%2F%2Fcdn.example.com%2Fimg.jpg\<close> is
  mapped to \<open>https://cdn.example.com/img.jpg\<close>.
\<close>

theorem fixThumbnail_strips_and_decodes:
  "fixThumbnail (proxyPrefix @ rest) = decodeURIComponent rest \<and>
   (list_all wellFormed ps \<longrightarrow>
      fixThumbnail (proxyPrefix @ concat (map written ps)) = Inr (map meant ps)) \<and>
   (\<not> includesStr thumbUrl proxyPrefix \<longrightarrow> fixThumbnail thumbUrl = Inr thumbUrl) \<and>
   fixThumbnail
     (str ''https://snapinsta.app/photo.php?photo=https%3A%2F%2Fcdn.example.com%2Fimg.jpg'')
   = Inr (str ''https://cdn.example.com/img.jpg'')"
proof (intro conjI impI)
  show "fixThumbnail (proxyPrefix @ rest) = decodeURIComponent rest"
    by (rule fixThumbnail_prefix)
next
  assume "list_all wellFormed ps"
  then show "fixThumbnail (proxyPrefix @ concat (map written ps)) = Inr (map meant ps)"
    by (simp add: fixThumbnail_prefix decodeURIComponent_written)
next
  assume "\<not> includesStr thumbUrl proxyPrefix"
  then show "fixThumbnail thumbUrl = Inr thumbUrl"
    by (simp add: fixThumbnail_def proxyPrefix_def Let_def)
next
  show "fixThumbnail
     (str ''https://snapinsta.app/photo.php?photo=https%3A%2F%2Fcdn.example.com%2Fimg.jpg'')
   = Inr (str ''https://cdn.example.com/img.jpg'')"
    by (rule fixThumbnail_example)
qed

theorem fixThumbnail_strips_and_decodes_witness:
  "list_all wellFormed [Plain 97, Escaped 47, Plain 98] \<and>
   fixThumbnail (proxyPrefix @ concat (map written [Plain 97, Escaped 47, Plain 98])) =
     Inr (map meant [Plain 97, Escaped 47, Plain 98]) \<and>
   concat (map written [Plain 97, Escaped 47, Plain 98]) = str ''a%2Fb'' \<and>
   map meant [Plain 97, Escaped 47, Plain 98] = str ''a/b'' \<and>
   \<not> includesStr (str ''https://cdn/t.jpg'') proxyPrefix \<and>
   fixThumbnail (str ''https://cdn/t.jpg'') = Inr (str ''https://cdn/t.jpg'')"
proof -
  have w: "list_all wellFormed [Plain 97, Escaped 47, Plain 98]" by simp
  have c: "concat (map written [Plain 97, Escaped 47, Plain 98]) = str ''a%2Fb''"
    by (simp add: hexChar_def str_def)
  have m: "map meant [Plain 97, Escaped 47, Plain 98] = str ''a/b''"
    by (simp add: str_def)
  have n: "\<not> includesStr (str ''https://cdn/t.jpg'') proxyPrefix"
    by (simp add: proxyPrefix_def str_def startsWith_def)
  have a: "fixThumbnail (proxyPrefix @ concat (map written [Plain 97, Escaped 47, Plain 98])) =
      Inr (map meant [Plain 97, Escaped 47, Plain 98])"
    using w fixThumbnail_strips_and_decodes
      [where ps = "[Plain 97, Escaped 47, Plain 98]", THEN conjunct2, THEN conjunct1]
    by blast
  have b: "fixThumbnail (str ''https://cdn/t.jpg'') = Inr (str ''https://cdn/t.jpg'')"
    using n fixThumbnail_strips_and_decodes
      [where thumbUrl = "str ''https://cdn/t.jpg''",
        THEN conjunct2, THEN conjunct2, THEN conjunct1]
    by blast
  show ?thesis using w a c m n b by blast
qed

section \<open>Properties of the extractor\<close>

lemmas doc_eval = mkElement_def str_def select_def findIn_def removeSubsets_def descendants_def
  properPrefix_def hasClass_def whiteSpace_def eqAt_def attr_def textOf_def trim_def
  orElse_def truthy_def strOrUndefined_def startsWith_def

lemmas row_eval = extractTableMedia_def tableRowMedia_def tableCellUrl_def testProgressApi_def
  startsWithIgnoreCase_def upperAscii_def matchProgressApiAt_def lineTerminator_def Let_def

lemmas item_eval = extractDownloadItemsMedia_def downloadItemMedia_def itemText_def
  fixThumbnail_def Let_def

subsection \<open>The example documents\<close>

lemma tableDoc_table: "select tableDoc tableSel \<noteq> []"
  by (simp add: tableDoc_def doc_eval)

lemma tableDoc_items: "select tableDoc itemsSel \<noteq> []"
  by (simp add: tableDoc_def doc_eval)

lemma tableDoc_media:
  "extractTableMedia tableDoc =
     [\<lparr>url = Some (str ''https://cdn/v.mp4''), type = Video,
       resolution = Some (str ''720p''), thumbnail = None, shouldRender = None\<rparr>,
      \<lparr>url = Some (str ''https://snapsave.app/render.php?t=1''), type = Video,
       resolution = Some (str ''360p''), thumbnail = None, shouldRender = Some True\<rparr>]"
  by (simp add: tableDoc_def doc_eval row_eval)

lemma itemsDoc_selects:
  "select itemsDoc tableSel = []" "select itemsDoc figureSel = []"
  "select itemsDoc itemsSel \<noteq> []"
  by (simp_all add: itemsDoc_def doc_eval)

lemma cardDoc_selects:
  "select cardDoc tableSel = []" "select cardDoc figureSel \<noteq> []"
  "select cardDoc cardSel \<noteq> []"
  by (simp_all add: cardDoc_def doc_eval)

lemma itemsDoc_media:
  "extractDownloadItemsMedia itemsDoc =
     Inr [\<lparr>url = Some (str ''https://cdn/p.jpg''), type = Image, resolution = None,
           thumbnail = None, shouldRender = None\<rparr>]"
  by (simp add: itemsDoc_def doc_eval item_eval)

lemma badThumbDoc_throws: "extractLayout badThumbDoc = Inl URIError"
  by (simp add: badThumbDoc_def doc_eval extractLayout_def item_eval)

lemma empty_document: "extractLayout [] = Inr (\<lparr>description = None, preview = None, media = None\<rparr>, [])"
  by (simp add: extractLayout_def select_def)

subsection \<open>The choice of the layout\<close>

text \<open>
  C5, as the claim states it, fails: \<open>plainTableDoc\<close> has a table, with a row that the
  table extractor reads, and a download-items group; its table does not carry the class
  \<open>table\<close>, so the download-items extractor is the one that runs, and what it returns is
  not what the table extractor returns.
\<close>

theorem plain_table_counterexample:
  "select plainTableDoc (Simple (Tag (str ''table''))) \<noteq> [] \<and>
   select plainTableDoc itemsSel \<noteq> [] \<and>
   extractTableMedia plainTableDoc =
     [\<lparr>url = Some (str ''https://cdn/v.mp4''), type = Video,
       resolution = Some (str ''720p''), thumbnail = None, shouldRender = None\<rparr>] \<and>
   extractLayout plainTableDoc =
     Inr (\<lparr>description = None, preview = None, media = None\<rparr>,
          [\<lparr>url = Some (str ''https://cdn/w.mp4''), type = Video, resolution = None,
            thumbnail = None, shouldRender = None\<rparr>])"
  by (simp add: plainTableDoc_def doc_eval row_eval extractLayout_def
      extractDownloadItemsMedia_def downloadItemMedia_def itemText_def fixThumbnail_def)

text \<open>
  C5, amended. The marker of the table layout is an element \<open>table.table\<close>, a table with
  the class \<open>table\<close>. For every document that has one, the metadata and the table
  extractor give the result, whether or not the document has a download-items group. A
  document without that marker but with a figure that is a child of \<open>article.media\<close> is
  read by the card extractor or, with no card, by the simple one. The download-items
  extractor runs only for a document that has neither of the two markers of the first
  branch; such a document without a download-items group gives an empty media list.
\<close>

theorem table_layout_priority:
  "(select doc tableSel \<noteq> [] \<longrightarrow>
      extractLayout doc = Inr (extractMetadata doc, extractTableMedia doc)) \<and>
   (select doc tableSel = [] \<and> select doc figureSel \<noteq> [] \<longrightarrow>
      extractLayout doc =
        Inr (extractMetadata doc,
             if select doc cardSel \<noteq> [] then extractCardMedia doc
             else extractSimpleMedia doc)) \<and>
   (select doc tableSel = [] \<and> select doc figureSel = [] \<longrightarrow>
      extractLayout doc =
        (if select doc itemsSel \<noteq> []
         then (case extractDownloadItemsMedia doc of
                 Inl e \<Rightarrow> Inl e
               | Inr ms \<Rightarrow> Inr (\<lparr>description = None, preview = None, media = None\<rparr>, ms))
         else Inr (\<lparr>description = None, preview = None, media = None\<rparr>, [])))"
proof (intro conjI impI)
  assume "select doc tableSel \<noteq> []"
  then show "extractLayout doc = Inr (extractMetadata doc, extractTableMedia doc)"
    by (simp add: extractLayout_def)
next
  assume "select doc tableSel = [] \<and> select doc figureSel \<noteq> []"
  then show "extractLayout doc =
      Inr (extractMetadata doc,
           if select doc cardSel \<noteq> [] then extractCardMedia doc
           else extractSimpleMedia doc)"
    by (simp add: extractLayout_def)
next
  assume "select doc tableSel = [] \<and> select doc figureSel = []"
  then show "extractLayout doc =
      (if select doc itemsSel \<noteq> []
       then (case extractDownloadItemsMedia doc of
               Inl e \<Rightarrow> Inl e
             | Inr ms \<Rightarrow> Inr (\<lparr>description = None, preview = None, media = None\<rparr>, ms))
       else Inr (\<lparr>description = None, preview = None, media = None\<rparr>, []))"
    by (simp add: extractLayout_def)
qed

theorem table_layout_priority_witness:
  "select tableDoc tableSel \<noteq> [] \<and> select tableDoc itemsSel \<noteq> [] \<and>
   extractLayout tableDoc = Inr (extractMetadata tableDoc, extractTableMedia tableDoc) \<and>
   select cardDoc tableSel = [] \<and> select cardDoc figureSel \<noteq> [] \<and>
   extractLayout cardDoc = Inr (extractMetadata cardDoc, extractCardMedia cardDoc) \<and>
   select itemsDoc tableSel = [] \<and> select itemsDoc figureSel = [] \<and>
   extractLayout itemsDoc =
     Inr (\<lparr>description = None, preview = None, media = None\<rparr>,
          [\<lparr>url = Some (str ''https://cdn/p.jpg''), type = Image, resolution = None,
            thumbnail = None, shouldRender = None\<rparr>])"
  using table_layout_priority [of tableDoc] table_layout_priority [of cardDoc]
    table_layout_priority [of itemsDoc]
    tableDoc_table tableDoc_items cardDoc_selects itemsDoc_selects itemsDoc_media
  by simp

subsection \<open>The rows of the table layout\<close>

lemma startsWith_append: "startsWith (p @ q) s \<Longrightarrow> startsWith p s"
proof -
  assume "startsWith (p @ q) s"
  then have "take (length p + length q) s = p @ q" by (simp add: startsWith_def)
  then have "take (length p) (take (length p + length q) s) = take (length p) (p @ q)"
    by simp
  then show "startsWith p s" by (simp add: startsWith_def min_def)
qed

lemma startsWith_ignoreCase: "startsWith p s \<Longrightarrow> startsWithIgnoreCase p s"
  by (simp add: startsWith_def startsWithIgnoreCase_def)

lemma match_imp_word:
  assumes "matchProgressApiAt s = Some p"
  shows "startsWithIgnoreCase (str ''get_progressApi'') s"
proof -
  have "startsWith (str ''get_progressApi('' @ [39]) s"
    using assms by (simp add: matchProgressApiAt_def split: if_splits)
  moreover have "str ''get_progressApi('' @ [39] = str ''get_progressApi'' @ [40, 39]"
    by (simp add: str_def)
  ultimately have "startsWith (str ''get_progressApi'') s"
    using startsWith_append by metis
  then show ?thesis by (rule startsWith_ignoreCase)
qed

lemma exec_imp_test: "execProgressApi s = Some p \<Longrightarrow> testProgressApi s"
proof (induction s)
  case Nil
  then show ?case by simp
next
  case (Cons c cs)
  show ?case
  proof (cases "matchProgressApiAt (c # cs)")
    case None
    with Cons have "testProgressApi cs" by simp
    then show ?thesis by (simp add: testProgressApi_def)
  next
    case (Some q)
    then show ?thesis using match_imp_word by (simp add: testProgressApi_def)
  qed
qed

lemma tableRowMedia_render:
  assumes "execProgressApi (actionText el) = Some p"
  shows "shouldRender (tableRowMedia el) = Some True"
    and "url (tableRowMedia el) = Some (str ''https://snapsave.app'' @ p)"
proof -
  have t: "testProgressApi (actionText el)" using assms by (rule exec_imp_test)
  show "shouldRender (tableRowMedia el) = Some True"
    using t by (simp add: tableRowMedia_def actionText_def Let_def)
  have "str ''https://snapsave.app'' @ p \<noteq> []" by (simp add: str_def)
  then show "url (tableRowMedia el) = Some (str ''https://snapsave.app'' @ p)"
    using t assms
    by (simp add: tableRowMedia_def actionText_def Let_def orElse_def truthy_def
        strOrUndefined_def)
qed

lemma tableRowMedia_literal:
  assumes "\<not> testProgressApi (actionText el)"
  shows "shouldRender (tableRowMedia el) = None"
    and "url (tableRowMedia el) = tableCellUrl el"
  using assms by (simp_all add: tableRowMedia_def actionText_def Let_def)

text \<open>
  C6, as the claim states it, fails: the only row of \<open>bareHandlerDoc\<close> has the handler
  \<open>get_progressApi()\<close>, which the pattern with the captured path does not match; yet its
  descriptor has \<open>shouldRender\<close> set, and its \<open>url\<close> is not the handler but the host
  followed by the text \<open>undefined\<close>.
\<close>

theorem tableRow_literal_counterexample:
  "map tableCellUrl (select bareHandlerDoc rowSel) = [Some (str ''get_progressApi()'')] \<and>
   execProgressApi (str ''get_progressApi()'') = None \<and>
   extractTableMedia bareHandlerDoc =
     [\<lparr>url = Some (str ''https://snapsave.appundefined''), type = Video,
       resolution = Some (str ''360p''), thumbnail = None, shouldRender = Some True\<rparr>]"
  by (simp add: bareHandlerDoc_def doc_eval row_eval)

text \<open>
  C6, amended. The descriptors of the table layout are those of the rows \<open>tbody > tr\<close>, in
  order. The action value of a row is the \<open>href\<close> of the first link in its third cell
  or, failing that, the \<open>onclick\<close> of the first button there. For every row whose action
  value matches the call pattern with a path in quotes, \<open>shouldRender\<close> is true and the
  \<open>url\<close> is the host \<open>https://snapsave.app\<close> followed by the captured path. For every row
  whose action value does not hold the word \<open>get_progressApi\<close> in any letter case, the
  \<open>url\<close> is the action value itself and \<open>shouldRender\<close> is absent.
\<close>

theorem tableRow_url:
  "extractTableMedia doc = map tableRowMedia (select doc rowSel) \<and>
   (execProgressApi (actionText el) = Some p \<longrightarrow>
      shouldRender (tableRowMedia el) = Some True \<and>
      url (tableRowMedia el) = Some (str ''https://snapsave.app'' @ p)) \<and>
   (\<not> testProgressApi (actionText el) \<longrightarrow>
      shouldRender (tableRowMedia el) = None \<and>
      url (tableRowMedia el) = tableCellUrl el)"
  using tableRowMedia_render [of el p] tableRowMedia_literal [of el]
  by (simp add: extractTableMedia_def)

theorem tableRow_url_witness:
  "execProgressApi (actionText (select tableDoc rowSel ! 1)) = Some (str ''/render.php?t=1'') \<and>
   shouldRender (tableRowMedia (select tableDoc rowSel ! 1)) = Some True \<and>
   url (tableRowMedia (select tableDoc rowSel ! 1)) =
     Some (str ''https://snapsave.app'' @ str ''/render.php?t=1'') \<and>
   \<not> testProgressApi (actionText (select tableDoc rowSel ! 0)) \<and>
   shouldRender (tableRowMedia (select tableDoc rowSel ! 0)) = None \<and>
   url (tableRowMedia (select tableDoc rowSel ! 0)) = Some (str ''https://cdn/v.mp4'')"
proof -
  have h1: "execProgressApi (actionText (select tableDoc rowSel ! 1)) =
      Some (str ''/render.php?t=1'')"
    by (simp add: tableDoc_def doc_eval row_eval actionText_def)
  have h0: "\<not> testProgressApi (actionText (select tableDoc rowSel ! 0))"
    by (simp add: tableDoc_def doc_eval row_eval actionText_def)
  have c0: "tableCellUrl (select tableDoc rowSel ! 0) = Some (str ''https://cdn/v.mp4'')"
    by (simp add: tableDoc_def doc_eval row_eval)
  show ?thesis
    using h1 h0 c0
      tableRow_url [of tableDoc "select tableDoc rowSel ! 1" "str ''/render.php?t=1''"]
      tableRow_url [of tableDoc "select tableDoc rowSel ! 0" "[]"]
    by simp
qed

subsection \<open>The type of a media item\<close>

lemma downloadItemMedia_type:
  "downloadItemMedia el = Inr m \<Longrightarrow>
     type m = (if itemText el = downloadPhoto then Image else Video)"
  by (auto simp: downloadItemMedia_def Let_def split: if_splits sum.splits)

lemma eachItem_types:
  "eachItem els = Inr ms \<Longrightarrow>
     map type ms = map (\<lambda>el. if itemText el = downloadPhoto then Image else Video) els"
proof (induction els arbitrary: ms)
  case Nil
  then show ?case by simp
next
  case (Cons el els)
  from Cons.prems obtain m ms' where m: "downloadItemMedia el = Inr m"
    and ms': "eachItem els = Inr ms'" and ms: "ms = m # ms'"
    by (auto split: sum.splits)
  show ?case
    using Cons.IH [OF ms'] downloadItemMedia_type [OF m] ms by simp
qed

text \<open>
  C7, as the claim states it, fails in the table layout: the only row of \<open>photoRowDoc\<close>
  has a link whose text is exactly \<open>Download Photo\<close>, and its descriptor has the type
  video, because the first cell of the row has the text \<open>720p\<close>.
\<close>

theorem table_type_counterexample:
  "textOf (findIn (select photoRowDoc rowSel) anchorSel) = downloadPhoto \<and>
   map type (extractTableMedia photoRowDoc) = [Video]"
  by (simp add: photoRowDoc_def doc_eval row_eval)

text \<open>
  C7, amended. In the card, simple and download-items layouts the type of an item is
  image when the text of the links of the card body, of the links of the document, or of
  the label of the button group, with the white space around it removed, is
  \<open>Download Photo\<close>, and video for any other text. In the table layout the type does not
  depend on that text: it is video when the first cell of the row has text and image
  when it has none.
\<close>

theorem media_type_by_text:
  "map type (extractCardMedia doc) =
     map (\<lambda>el. if cardText el = downloadPhoto then Image else Video) (select doc cardSel) \<and>
   map type (extractSimpleMedia doc) =
     [if simpleText doc = downloadPhoto then Image else Video] \<and>
   (extractDownloadItemsMedia doc = Inr ms \<longrightarrow>
      map type ms =
        map (\<lambda>el. if itemText el = downloadPhoto then Image else Video) (select doc itemsSel)) \<and>
   map type (extractTableMedia doc) =
     map (\<lambda>el. if resolutionText el \<noteq> [] then Video else Image) (select doc rowSel)"
proof (intro conjI impI)
  show "map type (extractCardMedia doc) =
      map (\<lambda>el. if cardText el = downloadPhoto then Image else Video) (select doc cardSel)"
    by (simp add: extractCardMedia_def cardMedia_def Let_def)
  show "map type (extractSimpleMedia doc) =
      [if simpleText doc = downloadPhoto then Image else Video]"
    by (simp add: extractSimpleMedia_def Let_def)
  show "map type (extractTableMedia doc) =
      map (\<lambda>el. if resolutionText el \<noteq> [] then Video else Image) (select doc rowSel)"
    by (simp add: extractTableMedia_def tableRowMedia_def resolutionText_def Let_def)
next
  assume "extractDownloadItemsMedia doc = Inr ms"
  then show "map type ms =
      map (\<lambda>el. if itemText el = downloadPhoto then Image else Video) (select doc itemsSel)"
    by (simp add: extractDownloadItemsMedia_def eachItem_types)
qed

theorem media_type_by_text_witness:
  "extractDownloadItemsMedia itemsDoc =
     Inr [\<lparr>url = Some (str ''https://cdn/p.jpg''), type = Image, resolution = None,
           thumbnail = None, shouldRender = None\<rparr>] \<and>
   map type [\<lparr>url = Some (str ''https://cdn/p.jpg''), type = Image, resolution = None,
              thumbnail = None, shouldRender = None\<rparr>] =
     map (\<lambda>el. if itemText el = downloadPhoto then Image else Video) (select itemsDoc itemsSel)"
  using media_type_by_text [of itemsDoc] itemsDoc_media by blast

section \<open>Properties of the workflow\<close>

lemma messages_distinct:
  "str ''Invalid URL'' \<noteq> str ''No downloadable media found''"
  "str ''Invalid URL'' \<noteq> str ''Failed to process download request''"
  "str ''No downloadable media found'' \<noteq> str ''Failed to process download request''"
  by (simp_all add: str_def)

lemma download_caught:
  "downloadBody supportedRegexes fetchMedia decrypt load link = Some (Inl e) \<Longrightarrow>
     download supportedRegexes fetchMedia decrypt load link = Some failedRequest"
  by (simp add: download_def failedRequest_def)

lemma download_returned:
  "downloadBody supportedRegexes fetchMedia decrypt load link = Some (Inr r) \<Longrightarrow>
     download supportedRegexes fetchMedia decrypt load link = Some r"
  by (simp add: download_def)

text \<open>
  C4. Whenever the request, the decoding or the extraction throws, \<open>download\<close> returns
  \<open>success: false\<close> with the message \<open>Failed to process download request\<close>, so no
  exception reaches the caller. An address that no pattern matches gives the message
  \<open>Invalid URL\<close> and an empty media list gives \<open>No downloadable media found\<close>, and these
  two messages come from nothing else.
\<close>

theorem download_failure_messages:
  "(isValid supportedRegexes link \<and> fetchMedia link = Inl e \<longrightarrow>
      download supportedRegexes fetchMedia decrypt load link = Some failedRequest) \<and>
   (isValid supportedRegexes link \<and> fetchMedia link = Inr html \<and>
    decrypt html = Some (Inl e) \<longrightarrow>
      download supportedRegexes fetchMedia decrypt load link = Some failedRequest) \<and>
   (isValid supportedRegexes link \<and> fetchMedia link = Inr html \<and>
    decrypt html = Some (Inr decodedHtml) \<and> extractLayout (load decodedHtml) = Inl e \<longrightarrow>
      download supportedRegexes fetchMedia decrypt load link = Some failedRequest) \<and>
   (\<not> isValid supportedRegexes link \<longrightarrow>
      download supportedRegexes fetchMedia decrypt load link = Some invalidUrl) \<and>
   (isValid supportedRegexes link \<and> fetchMedia link = Inr html \<and>
    decrypt html = Some (Inr decodedHtml) \<and> extractLayout (load decodedHtml) = Inr (d, []) \<longrightarrow>
      download supportedRegexes fetchMedia decrypt load link = Some noMedia) \<and>
   (download supportedRegexes fetchMedia decrypt load link = Some r \<and>
    message r = Some (str ''Invalid URL'') \<longrightarrow> \<not> isValid supportedRegexes link) \<and>
   (download supportedRegexes fetchMedia decrypt load link = Some r \<and>
    message r = Some (str ''No downloadable media found'') \<longrightarrow>
      isValid supportedRegexes link \<and>
      (\<exists>h t d'. fetchMedia link = Inr h \<and> decrypt h = Some (Inr t) \<and>
         extractLayout (load t) = Inr (d', [])))"
proof (intro conjI impI)
  assume "isValid supportedRegexes link \<and> fetchMedia link = Inl e"
  then have "downloadBody supportedRegexes fetchMedia decrypt load link = Some (Inl e)"
    by (simp add: downloadBody_def)
  then show "download supportedRegexes fetchMedia decrypt load link = Some failedRequest"
    by (rule download_caught)
next
  assume "isValid supportedRegexes link \<and> fetchMedia link = Inr html \<and>
    decrypt html = Some (Inl e)"
  then have "downloadBody supportedRegexes fetchMedia decrypt load link = Some (Inl e)"
    by (simp add: downloadBody_def)
  then show "download supportedRegexes fetchMedia decrypt load link = Some failedRequest"
    by (rule download_caught)
next
  assume "isValid supportedRegexes link \<and> fetchMedia link = Inr html \<and>
    decrypt html = Some (Inr decodedHtml) \<and> extractLayout (load decodedHtml) = Inl e"
  then have "downloadBody supportedRegexes fetchMedia decrypt load link = Some (Inl e)"
    by (simp add: downloadBody_def)
  then show "download supportedRegexes fetchMedia decrypt load link = Some failedRequest"
    by (rule download_caught)
next
  assume "\<not> isValid supportedRegexes link"
  then show "download supportedRegexes fetchMedia decrypt load link = Some invalidUrl"
    by (simp add: download_def downloadBody_def invalidUrl_def)
next
  assume "isValid supportedRegexes link \<and> fetchMedia link = Inr html \<and>
    decrypt html = Some (Inr decodedHtml) \<and> extractLayout (load decodedHtml) = Inr (d, [])"
  then show "download supportedRegexes fetchMedia decrypt load link = Some noMedia"
    by (simp add: download_def downloadBody_def respond_def noMedia_def)
next
  assume "download supportedRegexes fetchMedia decrypt load link = Some r \<and>
    message r = Some (str ''Invalid URL'')"
  then show "\<not> isValid supportedRegexes link"
    using messages_distinct
    by (auto simp: download_def downloadBody_def respond_def
        split: if_splits sum.splits option.splits)
next
  assume a: "download supportedRegexes fetchMedia decrypt load link = Some r \<and>
    message r = Some (str ''No downloadable media found'')"
  then show "isValid supportedRegexes link"
    using messages_distinct
    by (auto simp: download_def downloadBody_def respond_def
        split: if_splits sum.splits option.splits)
  from a show "\<exists>h t d'. fetchMedia link = Inr h \<and> decrypt h = Some (Inr t) \<and>
      extractLayout (load t) = Inr (d', [])"
    using messages_distinct
    by (auto simp: download_def downloadBody_def respond_def
        split: if_splits sum.splits option.splits)
qed

theorem download_failure_messages_witness:
  "isValid [\<lambda>l. True] (str ''https://www.instagram.com/p/abc/'') \<and>
   download [\<lambda>l. True] (\<lambda>l. Inl TransportError) (\<lambda>h. Some (Inr [])) (\<lambda>t. [])
     (str ''https://www.instagram.com/p/abc/'') = Some failedRequest \<and>
   download [\<lambda>l. True] (\<lambda>l. Inr []) (\<lambda>h. Some (Inl TypeError)) (\<lambda>t. [])
     (str ''https://www.instagram.com/p/abc/'') = Some failedRequest \<and>
   extractLayout badThumbDoc = Inl URIError \<and>
   download [\<lambda>l. True] (\<lambda>l. Inr []) (\<lambda>h. Some (Inr [])) (\<lambda>t. badThumbDoc)
     (str ''https://www.instagram.com/p/abc/'') = Some failedRequest \<and>
   \<not> isValid [] (str ''ftp://example.org'') \<and>
   download [] (\<lambda>l. Inr []) (\<lambda>h. Some (Inr [])) (\<lambda>t. []) (str ''ftp://example.org'') =
     Some invalidUrl \<and>
   message invalidUrl = Some (str ''Invalid URL'') \<and>
   download [\<lambda>l. True] (\<lambda>l. Inr []) (\<lambda>h. Some (Inr [])) (\<lambda>t. [])
     (str ''https://www.instagram.com/p/abc/'') = Some noMedia \<and>
   message noMedia = Some (str ''No downloadable media found'') \<and>
   (\<exists>h t d'. (\<lambda>l. Inr []) (str ''https://www.instagram.com/p/abc/'') = Inr h \<and>
      (\<lambda>h. Some (Inr [])) h = Some (Inr t) \<and> extractLayout ((\<lambda>t. []) t) = Inr (d', []))"
proof -
  let ?link = "str ''https://www.instagram.com/p/abc/''"
  let ?d0 = "\<lparr>description = None, preview = None, media = None\<rparr>"
  have v: "isValid [\<lambda>l. True] ?link" by (simp add: isValid_def)
  have nv: "\<not> isValid [] (str ''ftp://example.org'')" by (simp add: isValid_def)
  have w1: "download [\<lambda>l. True] (\<lambda>l. Inl TransportError) (\<lambda>h. Some (Inr [])) (\<lambda>t. []) ?link =
      Some failedRequest"
    using v download_failure_messages
      [where supportedRegexes = "[\<lambda>l. True]" and link = ?link
        and fetchMedia = "\<lambda>l. Inl TransportError" and e = TransportError
        and decrypt = "\<lambda>h. Some (Inr [])" and load = "\<lambda>t. []",
        THEN conjunct1]
    by simp
  have w2: "download [\<lambda>l. True] (\<lambda>l. Inr []) (\<lambda>h. Some (Inl TypeError)) (\<lambda>t. []) ?link =
      Some failedRequest"
    using v download_failure_messages
      [where supportedRegexes = "[\<lambda>l. True]" and link = ?link
        and fetchMedia = "\<lambda>l. Inr []" and html = "[]" and e = TypeError
        and decrypt = "\<lambda>h. Some (Inl TypeError)" and load = "\<lambda>t. []",
        THEN conjunct2, THEN conjunct1]
    by simp
  have w3: "download [\<lambda>l. True] (\<lambda>l. Inr []) (\<lambda>h. Some (Inr [])) (\<lambda>t. badThumbDoc) ?link =
      Some failedRequest"
    using v badThumbDoc_throws download_failure_messages
      [where supportedRegexes = "[\<lambda>l. True]" and link = ?link
        and fetchMedia = "\<lambda>l. Inr []" and html = "[]" and e = URIError
        and decrypt = "\<lambda>h. Some (Inr [])" and decodedHtml = "[]"
        and load = "\<lambda>t. badThumbDoc",
        THEN conjunct2, THEN conjunct2, THEN conjunct1]
    by simp
  have w4: "download [] (\<lambda>l. Inr []) (\<lambda>h. Some (Inr [])) (\<lambda>t. []) (str ''ftp://example.org'') =
      Some invalidUrl"
    using nv download_failure_messages
      [where supportedRegexes = "[]" and link = "str ''ftp://example.org''"
        and fetchMedia = "\<lambda>l. Inr []" and decrypt = "\<lambda>h. Some (Inr [])"
        and load = "\<lambda>t. []",
        THEN conjunct2, THEN conjunct2, THEN conjunct2, THEN conjunct1]
    by simp
  have w5: "download [\<lambda>l. True] (\<lambda>l. Inr []) (\<lambda>h. Some (Inr [])) (\<lambda>t. []) ?link =
      Some noMedia"
    using v empty_document download_failure_messages
      [where supportedRegexes = "[\<lambda>l. True]" and link = ?link
        and fetchMedia = "\<lambda>l. Inr []" and html = "[]"
        and decrypt = "\<lambda>h. Some (Inr [])" and decodedHtml = "[]"
        and load = "\<lambda>t. []" and d = ?d0,
        THEN conjunct2, THEN conjunct2, THEN conjunct2, THEN conjunct2, THEN conjunct1]
    by simp
  have m: "message invalidUrl = Some (str ''Invalid URL'')"
    "message noMedia = Some (str ''No downloadable media found'')"
    by (simp_all add: invalidUrl_def noMedia_def)
  have w6: "\<not> isValid [] (str ''ftp://example.org'')"
    using w4 m(1) download_failure_messages
      [where supportedRegexes = "[]" and link = "str ''ftp://example.org''"
        and fetchMedia = "\<lambda>l. Inr []" and decrypt = "\<lambda>h. Some (Inr [])"
        and load = "\<lambda>t. []" and r = invalidUrl,
        THEN conjunct2, THEN conjunct2, THEN conjunct2, THEN conjunct2, THEN conjunct2,
        THEN conjunct1]
    by blast
  have w7: "\<exists>h t d'. (\<lambda>l. Inr []) ?link = Inr h \<and>
      (\<lambda>h. Some (Inr [])) h = Some (Inr t) \<and> extractLayout ((\<lambda>t. []) t) = Inr (d', [])"
    using w5 m(2) download_failure_messages
      [where supportedRegexes = "[\<lambda>l. True]" and link = ?link
        and fetchMedia = "\<lambda>l. Inr []" and decrypt = "\<lambda>h. Some (Inr [])"
        and load = "\<lambda>t. []" and r = noMedia,
        THEN conjunct2, THEN conjunct2, THEN conjunct2, THEN conjunct2, THEN conjunct2,
        THEN conjunct2]
    by blast
  show ?thesis using v w1 w2 w3 w4 w5 w6 w7 m badThumbDoc_throws by blast
qed

text \<open>
  C9. Every answer that \<open>download\<close> returns has exactly one of the two variants: it
  carries a message exactly when \<open>success\<close> is false, and data exactly when \<open>success\<close>
  is true.
\<close>

theorem download_one_variant:
  assumes "download supportedRegexes fetchMedia decrypt load link = Some r"
  shows "(message r \<noteq> None \<longleftrightarrow> \<not> success r) \<and> (data r \<noteq> None \<longleftrightarrow> success r)"
proof (cases "downloadBody supportedRegexes fetchMedia decrypt load link")
  case None
  with assms show ?thesis by (simp add: download_def)
next
  case (Some b)
  show ?thesis
  proof (cases b)
    case (Inl e)
    with Some assms have "r = failedRequest"
      using download_caught by fastforce
    then show ?thesis by (simp add: failedRequest_def)
  next
    case (Inr r')
    with Some assms have r: "r = r'" using download_returned by fastforce
    from Some Inr show ?thesis
      unfolding r
      by (auto simp: downloadBody_def respond_def
          split: if_splits sum.splits option.splits prod.splits)
  qed
qed

theorem download_one_variant_witness:
  "download [\<lambda>l. True] (\<lambda>l. Inr []) (\<lambda>h. Some (Inr [])) (\<lambda>t. [])
     (str ''https://www.instagram.com/p/abc/'') = Some noMedia \<and>
   (message noMedia \<noteq> None \<longleftrightarrow> \<not> success noMedia) \<and>
   (data noMedia \<noteq> None \<longleftrightarrow> success noMedia)"
proof -
  have h: "download [\<lambda>l. True] (\<lambda>l. Inr []) (\<lambda>h. Some (Inr [])) (\<lambda>t. [])
      (str ''https://www.instagram.com/p/abc/'') = Some noMedia"
    by (simp add: download_def downloadBody_def isValid_def empty_document respond_def
        noMedia_def)
  show ?thesis using h download_one_variant [OF h] by simp
qed

subsection \<open>The simple layout\<close>

lemma figureDoc_selects:
  "select figureDoc tableSel = []" "select figureDoc figureSel \<noteq> []"
  "select figureDoc cardSel = []" "select figureDoc anchorSel = []"
  "select figureDoc buttonSel = []"
  by (simp_all add: figureDoc_def doc_eval)

lemma figureDoc_metadata:
  "extractMetadata figureDoc =
     \<lparr>description = None, preview = Some (str ''https://cdn/t.jpg''), media = None\<rparr>"
  by (simp add: figureDoc_def doc_eval extractMetadata_def Let_def)

lemma extractSimpleMedia_no_link:
  assumes "select doc anchorSel = []" "select doc buttonSel = []"
  shows "extractSimpleMedia doc = [noUrlItem]"
proof -
  have "trim [] \<noteq> downloadPhoto" by (simp add: trim_def str_def)
  then show ?thesis
    using assms
    by (simp add: extractSimpleMedia_def simpleText_def textOf_def attr_def orElse_def
        truthy_def noUrlItem_def Let_def)
qed

text \<open>
  C10. The simple layout always returns exactly one descriptor. For a document with no
  link and no button that descriptor has no \<open>url\<close>. So for a document of the first
  branch (it has the figure) with no table, no card, no link and no button, \<open>download\<close>
  answers \<open>success: true\<close> with that one item, not the failure for an empty media list.
\<close>

theorem simple_layout_single_item:
  "length (extractSimpleMedia doc) = 1 \<and>
   (select doc anchorSel = [] \<and> select doc buttonSel = [] \<longrightarrow>
      extractSimpleMedia doc = [noUrlItem] \<and> url noUrlItem = None) \<and>
   (isValid supportedRegexes link \<and> fetchMedia link = Inr html \<and>
    decrypt html = Some (Inr decodedHtml) \<and> load decodedHtml = doc \<and>
    select doc tableSel = [] \<and> select doc figureSel \<noteq> [] \<and> select doc cardSel = [] \<and>
    select doc anchorSel = [] \<and> select doc buttonSel = [] \<longrightarrow>
      download supportedRegexes fetchMedia decrypt load link =
        Some \<lparr>success = True, message = None,
              data = Some ((extractMetadata doc)\<lparr>media := Some [noUrlItem]\<rparr>)\<rparr>)"
proof (intro conjI impI)
  show "length (extractSimpleMedia doc) = 1"
    by (simp add: extractSimpleMedia_def Let_def)
next
  assume "select doc anchorSel = [] \<and> select doc buttonSel = []"
  then show "extractSimpleMedia doc = [noUrlItem]"
    by (simp add: extractSimpleMedia_no_link)
next
  show "url noUrlItem = None" by (simp add: noUrlItem_def)
next
  assume a: "isValid supportedRegexes link \<and> fetchMedia link = Inr html \<and>
    decrypt html = Some (Inr decodedHtml) \<and> load decodedHtml = doc \<and>
    select doc tableSel = [] \<and> select doc figureSel \<noteq> [] \<and> select doc cardSel = [] \<and>
    select doc anchorSel = [] \<and> select doc buttonSel = []"
  then have s: "extractSimpleMedia doc = [noUrlItem]"
    by (simp add: extractSimpleMedia_no_link)
  from a have "extractLayout doc = Inr (extractMetadata doc, [noUrlItem])"
    by (simp add: extractLayout_def s)
  with a show "download supportedRegexes fetchMedia decrypt load link =
      Some \<lparr>success = True, message = None,
            data = Some ((extractMetadata doc)\<lparr>media := Some [noUrlItem]\<rparr>)\<rparr>"
    by (simp add: download_def downloadBody_def respond_def)
qed

theorem simple_layout_single_item_witness:
  "select figureDoc anchorSel = [] \<and> select figureDoc buttonSel = [] \<and>
   extractSimpleMedia figureDoc = [noUrlItem] \<and>
   isValid [\<lambda>l. True] (str ''https://www.instagram.com/p/abc/'') \<and>
   select figureDoc tableSel = [] \<and> select figureDoc figureSel \<noteq> [] \<and>
   select figureDoc cardSel = [] \<and>
   download [\<lambda>l. True] (\<lambda>l. Inr []) (\<lambda>h. Some (Inr [])) (\<lambda>t. figureDoc)
     (str ''https://www.instagram.com/p/abc/'') =
     Some \<lparr>success = True, message = None,
           data = Some \<lparr>description = None, preview = Some (str ''https://cdn/t.jpg''),
                        media = Some [noUrlItem]\<rparr>\<rparr>"
proof -
  have v: "isValid [\<lambda>l. True] (str ''https://www.instagram.com/p/abc/'')"
    by (simp add: isValid_def)
  show ?thesis
    using v figureDoc_selects figureDoc_metadata
      simple_layout_single_item
        [where doc = figureDoc and supportedRegexes = "[\<lambda>l. True]"
          and link = "str ''https://www.instagram.com/p/abc/''"
          and fetchMedia = "\<lambda>l. Inr []" and html = "[]"
          and decrypt = "\<lambda>h. Some (Inr [])" and decodedHtml = "[]"
          and load = "\<lambda>t. figureDoc"]
    by simp
qed

end
